theory Spec2Isabelle
  imports Main
begin

section \<open>JavaScript values and exceptions\<close>

text \<open>
  Values obtained from \<^verbatim>\<open>JSON.parse\<close>. An object is the list of its own properties (keys
  distinct, as after parsing). Numbers are kept as integers: the program only tests a
  parsed number for truthiness (non-zero). A value that may be \<^verbatim>\<open>undefined\<close> is a
  \<open>json option\<close>, with \<open>None\<close> for \<^verbatim>\<open>undefined\<close>.
\<close>

datatype json =
    JNull
  | JBool bool
  | JNum int
  | JStr string
  | JArr "json list"
  | JObj "(string \<times> json) list"

text \<open>Exceptions: \<^verbatim>\<open>new Error(msg)\<close>, and the errors raised by the runtime and its libraries.\<close>

datatype exn = JsError string | TypeError | SyntaxError | IOError

text \<open>JavaScript truthiness (\<^verbatim>\<open>!!v\<close>).\<close>

fun truthy :: "json option \<Rightarrow> bool" where
  "truthy None = False"
| "truthy (Some JNull) = False"
| "truthy (Some (JBool b)) = b"
| "truthy (Some (JNum n)) = (n \<noteq> 0)"
| "truthy (Some (JStr s)) = (s \<noteq> [])"
| "truthy (Some (JArr xs)) = True"
| "truthy (Some (JObj kvs)) = True"

text \<open>
  Property read \<^verbatim>\<open>v.k\<close> on a value that is neither \<^verbatim>\<open>null\<close> nor \<^verbatim>\<open>undefined\<close>, for the
  keys the program reads (\<^verbatim>\<open>workspaces\<close>, \<^verbatim>\<open>packages\<close>, \<^verbatim>\<open>name\<close>, \<^verbatim>\<open>version\<close>): only an
  object can have them; on a boolean, number, string or array the read gives
  \<^verbatim>\<open>undefined\<close>.
\<close>

fun getProp :: "json \<Rightarrow> string \<Rightarrow> json option" where
  "getProp (JObj kvs) k = map_of kvs k"
| "getProp v k = None"

fun isArray :: "json \<Rightarrow> bool" where
  "isArray (JArr xs) = True"
| "isArray v = False"

section \<open>Data model (types/index.ts)\<close>

datatype MonorepoType = pnpm | npm | yarn | lerna | nx | turbo | none

text \<open>
  \<^verbatim>\<open>PackageInfo\<close>. The name and version are copied from a parsed manifest without any
  check, so at run time they are whatever JSON value the manifest holds.
\<close>

record PackageInfo =
  name :: json
  path :: string
  version :: "json option"

record MonorepoInfo =
  isMonorepo :: bool
  monorepoType :: MonorepoType
  rootPath :: string
  packages :: "PackageInfo list"

text \<open>
  \<^verbatim>\<open>TypeScriptError\<close>, the normalized diagnostic record. The field \<^verbatim>\<open>id\<close> is \<open>id'\<close> here;
  \<^verbatim>\<open>packageName\<close> is the package's \<^verbatim>\<open>name\<close> as it came from the manifest.
\<close>

record TypeScriptError =
  id' :: int
  packageName :: json
  fileName :: string
  errorCode :: int
  description :: string
  line :: "nat option"
  column :: "nat option"
  category :: "string option"

section \<open>The TypeScript compiler API, as far as the collector uses it\<close>

datatype DiagnosticCategory = Warning | Error | Suggestion | Message

datatype DiagnosticMessageChain =
  DiagnosticMessageChain (chain_messageText: string) (chain_next: "DiagnosticMessageChain list")

record SourceFile =
  sf_fileName :: string
  getLineAndCharacterOfPosition :: "nat \<Rightarrow> nat \<times> nat"

record Diagnostic =
  diag_category :: DiagnosticCategory
  diag_code :: int
  diag_messageText :: "string + DiagnosticMessageChain"
  diag_file :: "SourceFile option"
  diag_start :: "nat option"

record ConfigFileResult =
  config :: "json option"
  error :: "Diagnostic option"

record ParsedCommandLine =
  options :: json
  fileNames :: "string list"
  errors :: "Diagnostic list"

record Program =
  getSemanticDiagnostics :: "Diagnostic list"
  getSyntacticDiagnostics :: "Diagnostic list"
  getDeclarationDiagnostics :: "Diagnostic list"
  getConfigFileParsingDiagnostics :: "Diagnostic list"

section \<open>The environment: file system, path library, type checker, globbing\<close>

text \<open>
  An entry of the file system, as the program can observe it: something exists at the
  path, and reading it as JSON either fails (a directory, an unreadable file, text that
  is not JSON) or gives a value.
\<close>

datatype fsentry = NoJson | Json json

text \<open>
  Everything the program calls and does not define is a field of the environment:
  the file system, the functions of \<^verbatim>\<open>node:path\<close> (\<^verbatim>\<open>path_relative_cwd f\<close> is
  \<^verbatim>\<open>path.relative(process.cwd(), f)\<close>), and the TypeScript API, each call of which may
  throw. The package enumerations of the built-in detectors go through the external
  globbing and YAML libraries and are fields as well, and so is the turbo detector,
  whose class is not among the sources.
\<close>

record Env =
  files :: "string \<Rightarrow> fsentry option"
  path_resolve :: "string \<Rightarrow> string \<Rightarrow> string"
  path_join :: "string \<Rightarrow> string \<Rightarrow> string"
  path_dirname :: "string \<Rightarrow> string"
  path_relative_cwd :: "string \<Rightarrow> string"
  readConfigFile :: "string \<Rightarrow> exn + ConfigFileResult"
  parseJsonConfigFileContent :: "json option \<Rightarrow> string \<Rightarrow> exn + ParsedCommandLine"
  createProgram :: "string list \<Rightarrow> json \<Rightarrow> exn + Program"
  turbo_detect :: "string \<Rightarrow> exn + bool"
  turbo_getPackages :: "string \<Rightarrow> exn + PackageInfo list"
  pnpm_getPackages :: "string \<Rightarrow> exn + PackageInfo list"
  npm_getPackages :: "string \<Rightarrow> exn + PackageInfo list"
  lerna_getPackages :: "string \<Rightarrow> exn + PackageInfo list"
  nx_getPackages :: "string \<Rightarrow> exn + PackageInfo list"

definition existsSync :: "Env \<Rightarrow> string \<Rightarrow> bool" where
  "existsSync E p = (files E p \<noteq> None)"

section \<open>The error collector (collectors/ts-error-collector.ts)\<close>

text \<open>The two mutable fields of \<^verbatim>\<open>TypeScriptErrorCollector\<close>.\<close>

record Collector =
  errorIdCounter :: int
  interrupted :: bool

text \<open>\<^verbatim>\<open>ts.DiagnosticCategory[c].toLowerCase()\<close>.\<close>

fun categoryName :: "DiagnosticCategory \<Rightarrow> string" where
  "categoryName Warning = ''warning''"
| "categoryName Error = ''error''"
| "categoryName Suggestion = ''suggestion''"
| "categoryName Message = ''message''"

text \<open>The message: the text itself, or the top-level text of a chain.\<close>

fun flattenMessage :: "string + DiagnosticMessageChain \<Rightarrow> string" where
  "flattenMessage (Inl s) = s"
| "flattenMessage (Inr ch) = chain_messageText ch"

text \<open>
  The callback of \<^verbatim>\<open>diagnostics.map\<close> in \<^verbatim>\<open>formatDiagnostics\<close>, given the value
  \<^verbatim>\<open>++this.errorIdCounter\<close> has produced. The calls it makes into the path library and
  the source file are taken to return, as their types say.
\<close>

definition formatDiagnostic :: "Env \<Rightarrow> json \<Rightarrow> int \<Rightarrow> Diagnostic \<Rightarrow> TypeScriptError" where
  "formatDiagnostic E pkgName n d =
     (let message = flattenMessage (diag_messageText d);
          located =
            (case diag_file d of
               None \<Rightarrow> (''unknown'', None, None)
             | Some f \<Rightarrow>
                (case diag_start d of
                   None \<Rightarrow> (''unknown'', None, None)
                 | Some pos \<Rightarrow>
                    (let lc = getLineAndCharacterOfPosition f pos
                     in (path_relative_cwd E (sf_fileName f),
                         Some (fst lc + 1), Some (snd lc + 1)))))
      in \<lparr> id' = n,
           packageName = pkgName,
           fileName = fst located,
           errorCode = diag_code d,
           description = message,
           line = fst (snd located),
           column = snd (snd located),
           category = Some (categoryName (diag_category d)) \<rparr>)"

text \<open>\<^verbatim>\<open>formatDiagnostics\<close>: the map, threading the counter through the calls.\<close>

fun formatDiagnostics ::
  "Env \<Rightarrow> Collector \<Rightarrow> Diagnostic list \<Rightarrow> json \<Rightarrow> TypeScriptError list \<times> Collector" where
  "formatDiagnostics E c [] pkgName = ([], c)"
| "formatDiagnostics E c (d # ds) pkgName =
     (let c1 = c\<lparr>errorIdCounter := errorIdCounter c + 1\<rparr>;
          r = formatDiagnostic E pkgName (errorIdCounter c1) d;
          (rs, c2) = formatDiagnostics E c1 ds pkgName
      in (r # rs, c2))"

text \<open>The text a template literal gives for \<^verbatim>\<open>messageText\<close>.\<close>

fun templateString :: "string + DiagnosticMessageChain \<Rightarrow> string" where
  "templateString (Inl s) = s"
| "templateString (Inr ch) = ''[object Object]''"

definition collectErrorsFromProject ::
  "Env \<Rightarrow> Collector \<Rightarrow> string \<Rightarrow> json \<Rightarrow> exn + (TypeScriptError list \<times> Collector)" where
  "collectErrorsFromProject E c tsconfigPath pkgName =
     (case readConfigFile E tsconfigPath of
        Inl e \<Rightarrow> Inl e
      | Inr configFile \<Rightarrow>
         (case error configFile of
            Some err \<Rightarrow>
              Inl (JsError (''Failed to read tsconfig.json: '' @ templateString (diag_messageText err)))
          | None \<Rightarrow>
             (case parseJsonConfigFileContent E (config configFile) (path_dirname E tsconfigPath) of
                Inl e \<Rightarrow> Inl e
              | Inr parsedConfig \<Rightarrow>
                 if errors parsedConfig \<noteq> []
                 then Inr (formatDiagnostics E c (errors parsedConfig) pkgName)
                 else
                   (case createProgram E (fileNames parsedConfig) (options parsedConfig) of
                      Inl e \<Rightarrow> Inl e
                    | Inr program \<Rightarrow>
                       Inr (formatDiagnostics E c
                             (getSemanticDiagnostics program @ getSyntacticDiagnostics program @
                              getDeclarationDiagnostics program @
                              getConfigFileParsingDiagnostics program)
                             pkgName)))))"

definition findTsConfig :: "Env \<Rightarrow> string \<Rightarrow> string option" where
  "findTsConfig E packagePath =
     (let tsconfigPath = path_join E packagePath ''tsconfig.json''
      in if existsSync E tsconfigPath then Some tsconfigPath else None)"

text \<open>
  \<^verbatim>\<open>collectFromPath\<close>. The warnings and error messages it prints are left out. The
  \<^verbatim>\<open>catch\<close> keeps the collector as the failed call left it; every \<^verbatim>\<open>throw\<close> of
  \<^verbatim>\<open>collectErrorsFromProject\<close> comes before its first change of the counter.
\<close>

definition collectFromPath ::
  "Env \<Rightarrow> Collector \<Rightarrow> string \<Rightarrow> json \<Rightarrow> TypeScriptError list \<times> Collector" where
  "collectFromPath E c packagePath pkgName =
     (if interrupted c then ([], c)
      else
        (case findTsConfig E packagePath of
           None \<Rightarrow> ([], c)
         | Some tsconfigPath \<Rightarrow>
            if interrupted c then ([], c)
            else
              (case collectErrorsFromProject E c tsconfigPath pkgName of
                 Inr res \<Rightarrow> res
               | Inl e \<Rightarrow> ([], c))))"

text \<open>
  The loop of \<^verbatim>\<open>collect\<close> over \<^verbatim>\<open>monorepoInfo.packages\<close>, from index \<open>i\<close> on, with the
  records pushed so far. The only point where the loop gives control back to the event
  loop is the \<^verbatim>\<open>setImmediate\<close> promise it awaits before each unit, so that is where
  the SIGINT handler can run: \<open>sig i\<close> says whether a SIGINT is delivered during the
  yield of iteration \<open>i\<close> (the handler of a signal that arrives while a unit is being
  checked runs at the next yield). The handler only sets the flag. The progress callback
  is left out: it is optional and its result is not used.
\<close>

fun collect_loop ::
  "Env \<Rightarrow> (nat \<Rightarrow> bool) \<Rightarrow> Collector \<Rightarrow> PackageInfo list \<Rightarrow> nat \<Rightarrow> TypeScriptError list
     \<Rightarrow> Collector \<times> (exn + TypeScriptError list)" where
  "collect_loop E sig c [] i allErrors = (c, Inr allErrors)"
| "collect_loop E sig c (pkg # pkgs) i allErrors =
     (if interrupted c then (c, Inl (JsError ''Interrupted by user''))
      else
        (let c1 = c\<lparr>interrupted := interrupted c \<or> sig i\<rparr>;
             (errs, c2) = collectFromPath E c1 (path pkg) (name pkg)
         in collect_loop E sig c2 pkgs (Suc i) (allErrors @ errs)))"

text \<open>
  \<^verbatim>\<open>collect\<close>, from the collector's state \<open>c\<close> before the call: the final state and either
  the exception the returned promise is rejected with or the list it resolves to.
\<close>

definition collect ::
  "Env \<Rightarrow> (nat \<Rightarrow> bool) \<Rightarrow> Collector \<Rightarrow> string \<Rightarrow> MonorepoInfo
     \<Rightarrow> Collector \<times> (exn + TypeScriptError list)" where
  "collect E sig c root info =
     (let c0 = c\<lparr>errorIdCounter := 0, interrupted := False\<rparr>
      in if packages info = [] then
           (let (errs, c1) = collectFromPath E c0 root (JStr ''root'')
            in (c1, Inr ([] @ errs)))
         else collect_loop E sig c0 (packages info) 0 [])"

section \<open>Detectors (detectors/base-detector.ts and the detector classes)\<close>

text \<open>\<^verbatim>\<open>MonorepoDetector\<close>. Both methods are asynchronous and may reject.\<close>

record MonorepoDetector =
  detectorName :: MonorepoType
  detect :: "Env \<Rightarrow> string \<Rightarrow> exn + bool"
  getPackages :: "Env \<Rightarrow> string \<Rightarrow> exn + PackageInfo list"

text \<open>\<^verbatim>\<open>JSON.parse(readFileSync(p, "utf-8"))\<close>: throws when the file cannot be read or parsed.\<close>

definition readFileSync_JSON_parse :: "Env \<Rightarrow> string \<Rightarrow> exn + json" where
  "readFileSync_JSON_parse E filePath =
     (case files E filePath of
        None \<Rightarrow> Inl IOError
      | Some NoJson \<Rightarrow> Inl SyntaxError
      | Some (Json v) \<Rightarrow> Inr v)"

text \<open>The helpers of \<^verbatim>\<open>BaseDetector\<close>; \<^verbatim>\<open>readJSON\<close> turns every failure into \<^verbatim>\<open>null\<close>.\<close>

definition fileExists :: "Env \<Rightarrow> string \<Rightarrow> bool" where
  "fileExists E filePath = existsSync E filePath"

definition readJSON :: "Env \<Rightarrow> string \<Rightarrow> json" where
  "readJSON E filePath =
     (case readFileSync_JSON_parse E filePath of Inl e \<Rightarrow> JNull | Inr v \<Rightarrow> v)"

definition resolvePath :: "Env \<Rightarrow> string \<Rightarrow> string \<Rightarrow> string" where
  "resolvePath E root p = path_resolve E root p"

text \<open>
  \<^verbatim>\<open>NpmDetector.detect\<close>. Past the first test \<^verbatim>\<open>packageJson\<close> is truthy, and the right
  operand of \<^verbatim>\<open>&&\<close> is evaluated only for a truthy \<^verbatim>\<open>workspaces\<close>, so neither property
  read is on \<^verbatim>\<open>null\<close> or \<^verbatim>\<open>undefined\<close> and the method never throws.
\<close>

definition NpmDetector_detect :: "Env \<Rightarrow> string \<Rightarrow> bool" where
  "NpmDetector_detect E root =
     (let packageJsonPath = resolvePath E root ''package.json'';
          packageJson = readJSON E packageJsonPath
      in if \<not> truthy (Some packageJson) then False
         else
           (case getProp packageJson ''workspaces'' of
              None \<Rightarrow> False
            | Some workspaces \<Rightarrow>
               truthy (Some workspaces) \<and>
               (isArray workspaces \<or> truthy (getProp workspaces ''packages''))))"

definition YarnDetector_detect :: "Env \<Rightarrow> string \<Rightarrow> bool" where
  "YarnDetector_detect E root =
     (let hasWorkspaces = NpmDetector_detect E root;
          hasYarnLock = fileExists E (resolvePath E root ''yarn.lock'')
      in hasWorkspaces \<and> hasYarnLock)"

definition PnpmDetector_detect :: "Env \<Rightarrow> string \<Rightarrow> bool" where
  "PnpmDetector_detect E root = fileExists E (resolvePath E root ''pnpm-workspace.yaml'')"

definition LernaDetector_detect :: "Env \<Rightarrow> string \<Rightarrow> bool" where
  "LernaDetector_detect E root = fileExists E (resolvePath E root ''lerna.json'')"

definition NxDetector_detect :: "Env \<Rightarrow> string \<Rightarrow> bool" where
  "NxDetector_detect E root =
     (fileExists E (resolvePath E root ''nx.json'') \<or>
      fileExists E (resolvePath E root ''workspace.json''))"

text \<open>
  Modelled from the spec: the class \<^verbatim>\<open>TurboDetector\<close> (detectors/turbo-detector.ts) is not
  among the sources. Its name is \<open>turbo\<close>, the type the spec gives to a repository it
  detects; its two methods are parameters, the fields \<open>turbo_detect\<close> and
  \<open>turbo_getPackages\<close> of the environment.
\<close>

definition TurboDetector :: MonorepoDetector where
  "TurboDetector =
     \<lparr> detectorName = turbo, detect = turbo_detect, getPackages = turbo_getPackages \<rparr>"

definition PnpmDetector :: MonorepoDetector where
  "PnpmDetector =
     \<lparr> detectorName = pnpm, detect = (\<lambda>E root. Inr (PnpmDetector_detect E root)),
       getPackages = pnpm_getPackages \<rparr>"

definition NpmDetector :: MonorepoDetector where
  "NpmDetector =
     \<lparr> detectorName = npm, detect = (\<lambda>E root. Inr (NpmDetector_detect E root)),
       getPackages = npm_getPackages \<rparr>"

text \<open>\<^verbatim>\<open>YarnDetector\<close> extends \<^verbatim>\<open>NpmDetector\<close> and inherits its \<^verbatim>\<open>getPackages\<close>.\<close>

definition YarnDetector :: MonorepoDetector where
  "YarnDetector =
     \<lparr> detectorName = yarn, detect = (\<lambda>E root. Inr (YarnDetector_detect E root)),
       getPackages = npm_getPackages \<rparr>"

definition LernaDetector :: MonorepoDetector where
  "LernaDetector =
     \<lparr> detectorName = lerna, detect = (\<lambda>E root. Inr (LernaDetector_detect E root)),
       getPackages = lerna_getPackages \<rparr>"

definition NxDetector :: MonorepoDetector where
  "NxDetector =
     \<lparr> detectorName = nx, detect = (\<lambda>E root. Inr (NxDetector_detect E root)),
       getPackages = nx_getPackages \<rparr>"

section \<open>The orchestrator (detectors/index.ts)\<close>

definition DEFAULT_DETECTORS :: "MonorepoDetector list" where
  "DEFAULT_DETECTORS =
     [TurboDetector, PnpmDetector, YarnDetector, NpmDetector, LernaDetector, NxDetector]"

text \<open>
  The loop over the detectors: the result of the first detector that detects the root,
  \<open>None\<close> when the loop ends without one, the exception when a call rejects.
\<close>

fun tryDetectors :: "Env \<Rightarrow> string \<Rightarrow> MonorepoDetector list \<Rightarrow> exn + MonorepoInfo option" where
  "tryDetectors E root [] = Inr None"
| "tryDetectors E root (detector # detectors) =
     (case detect detector E root of
        Inl e \<Rightarrow> Inl e
      | Inr isDetected \<Rightarrow>
         if isDetected then
           (case getPackages detector E root of
              Inl e \<Rightarrow> Inl e
            | Inr pkgs \<Rightarrow>
               Inr (Some \<lparr> isMonorepo = True, monorepoType = detectorName detector,
                           rootPath = root, packages = pkgs \<rparr>))
         else tryDetectors E root detectors)"

text \<open>\<^verbatim>\<open>a || b\<close> for a value \<open>a\<close> that may be \<^verbatim>\<open>undefined\<close>.\<close>

fun jsOr :: "json option \<Rightarrow> json \<Rightarrow> json" where
  "jsOr None d = d"
| "jsOr (Some v) d = (if truthy (Some v) then v else d)"

text \<open>
  The single-package fallback. Reading a property of \<^verbatim>\<open>null\<close> (a manifest whose text is
  \<^verbatim>\<open>null\<close>) throws a \<^verbatim>\<open>TypeError\<close>, which the \<^verbatim>\<open>catch\<close> handles like a failed read.
\<close>

definition singlePackage :: "Env \<Rightarrow> string \<Rightarrow> MonorepoInfo" where
  "singlePackage E root =
     (let packageJsonPath = path_resolve E root ''package.json''
      in case readFileSync_JSON_parse E packageJsonPath of
           Inl e \<Rightarrow>
             \<lparr> isMonorepo = False, monorepoType = none, rootPath = root, packages = [] \<rparr>
         | Inr JNull \<Rightarrow>
             \<lparr> isMonorepo = False, monorepoType = none, rootPath = root, packages = [] \<rparr>
         | Inr packageJson \<Rightarrow>
             \<lparr> isMonorepo = False, monorepoType = none, rootPath = root,
               packages = [\<lparr> name = jsOr (getProp packageJson ''name'') (JStr ''unknown''),
                             path = root,
                             version = getProp packageJson ''version'' \<rparr>] \<rparr>)"

definition detectMonorepo :: "Env \<Rightarrow> string \<Rightarrow> MonorepoDetector list \<Rightarrow> exn + MonorepoInfo" where
  "detectMonorepo E root customDetectors =
     (let detectors = customDetectors @ DEFAULT_DETECTORS
      in case tryDetectors E root detectors of
           Inl e \<Rightarrow> Inl e
         | Inr (Some info) \<Rightarrow> Inr info
         | Inr None \<Rightarrow> Inr (singlePackage E root))"

text \<open>
  The sentence of the specification about the npm detector, word for word: the manifest
  is present and parseable, and \<^verbatim>\<open>workspaces\<close> is an array, or an object whose \<^verbatim>\<open>packages\<close>
  array is non-empty.
\<close>

definition npm_detect_as_specified :: "Env \<Rightarrow> string \<Rightarrow> bool" where
  "npm_detect_as_specified E root =
     (case files E (path_resolve E root ''package.json'') of
        Some (Json packageJson) \<Rightarrow>
          (case getProp packageJson ''workspaces'' of
             Some (JArr ws) \<Rightarrow> True
           | Some (JObj kvs) \<Rightarrow>
              (case map_of kvs ''packages'' of Some (JArr (p # ps)) \<Rightarrow> True | _ \<Rightarrow> False)
           | _ \<Rightarrow> False)
      | _ \<Rightarrow> False)"

section \<open>The TSV generator (generators/tsv-generator.ts)\<close>

text \<open>
  A string is the list of the bytes of its UTF-8 text. Tab, newline and carriage return
  are single bytes that occur in no longer sequence, so replacing these bytes is replacing
  these characters.
\<close>

definition TAB :: char where "TAB = CHR 0x09"
definition LF :: char where "LF = CHR 0x0A"
definition CR :: char where "CR = CHR 0x0D"

text \<open>\<^verbatim>\<open>s.replace(/c/g, r)\<close> for a single character \<open>c\<close>.\<close>

definition replaceAll :: "char \<Rightarrow> string \<Rightarrow> string \<Rightarrow> string" where
  "replaceAll c r s = concat (map (\<lambda>x. if x = c then r else [x]) s)"

text \<open>
  \<^verbatim>\<open>escapeField\<close>. A value that is not a string has no \<^verbatim>\<open>replace\<close> method, and calling it
  throws a \<^verbatim>\<open>TypeError\<close>.
\<close>

definition escapeField :: "json \<Rightarrow> exn + string" where
  "escapeField field =
     (case field of
        JStr s \<Rightarrow> Inr (replaceAll CR [] (replaceAll LF '' '' (replaceAll TAB '' '' s)))
      | _ \<Rightarrow> Inl TypeError)"

text \<open>\<^verbatim>\<open>Number.prototype.toString\<close> on an integer: its decimal numeral.\<close>

fun digits :: "nat \<Rightarrow> string" where
  "digits n =
     (if n < 10 then [''0123456789'' ! n]
      else digits (n div 10) @ [''0123456789'' ! (n mod 10)])"

declare digits.simps [simp del]

definition toString :: "int \<Rightarrow> string" where
  "toString i = (if i < 0 then CHR ''-'' # digits (nat (- i)) else digits (nat i))"

text \<open>\<^verbatim>\<open>Array.prototype.join\<close> on an array of strings.\<close>

fun join :: "string \<Rightarrow> string list \<Rightarrow> string" where
  "join sep [] = []"
| "join sep [x] = x"
| "join sep (x # y # ys) = x @ sep @ join sep (y # ys)"

definition headers :: "string list" where
  "headers = [''id'', ''package_name'', ''file_name'', ''error_code'', ''description'']"

text \<open>The row of one record: the array \<^verbatim>\<open>row\<close> of the loop body, joined.\<close>

definition row :: "TypeScriptError \<Rightarrow> exn + string" where
  "row err =
     (case escapeField (packageName err) of
        Inl e \<Rightarrow> Inl e
      | Inr pn \<Rightarrow>
         (case escapeField (JStr (fileName err)) of
            Inl e \<Rightarrow> Inl e
          | Inr fn \<Rightarrow>
             (case escapeField (JStr (description err)) of
                Inl e \<Rightarrow> Inl e
              | Inr ds \<Rightarrow>
                 Inr (join [TAB] [toString (id' err), pn, fn, toString (errorCode err), ds]))))"

fun rows_loop :: "TypeScriptError list \<Rightarrow> string list \<Rightarrow> exn + string list" where
  "rows_loop [] rows = Inr rows"
| "rows_loop (err # errs) rows =
     (case row err of Inl e \<Rightarrow> Inl e | Inr r \<Rightarrow> rows_loop errs (rows @ [r]))"

text \<open>
  \<^verbatim>\<open>generate\<close>: the path and the content handed to \<^verbatim>\<open>writeFile\<close>, or the exception thrown
  before the write. The write itself is taken to succeed.
\<close>

definition generate :: "TypeScriptError list \<Rightarrow> string \<Rightarrow> exn + string \<times> string" where
  "generate errs outputPath =
     (case rows_loop errs [join [TAB] headers] of
        Inl e \<Rightarrow> Inl e
      | Inr rows \<Rightarrow> Inr (outputPath, join [LF] rows))"

text \<open>
  Splitting a text at every occurrence of a separator character, as
  \<^verbatim>\<open>String.prototype.split\<close> does: used to read the generated text back.
\<close>

fun split :: "char \<Rightarrow> string \<Rightarrow> string list" where
  "split d [] = [[]]"
| "split d (x # xs) =
     (if x = d then [] # split d xs
      else (case split d xs of [] \<Rightarrow> [[x]] | f # fs \<Rightarrow> (x # f) # fs))"

section \<open>Notions used to state the properties of the collector\<close>

text \<open>A record with its identifier blanked, to compare records up to numbering.\<close>

definition withoutId :: "TypeScriptError \<Rightarrow> TypeScriptError" where
  "withoutId r = r\<lparr>id' := 0\<rparr>"

text \<open>
  The raw diagnostics \<^verbatim>\<open>collectErrorsFromProject\<close> hands to \<^verbatim>\<open>formatDiagnostics\<close>, or the
  exception it throws before doing so. It does not depend on the collector's state.
\<close>

definition projectDiagnostics :: "Env \<Rightarrow> string \<Rightarrow> exn + Diagnostic list" where
  "projectDiagnostics E tsconfigPath =
     (case readConfigFile E tsconfigPath of
        Inl e \<Rightarrow> Inl e
      | Inr configFile \<Rightarrow>
         (case error configFile of
            Some err \<Rightarrow>
              Inl (JsError (''Failed to read tsconfig.json: '' @ templateString (diag_messageText err)))
          | None \<Rightarrow>
             (case parseJsonConfigFileContent E (config configFile) (path_dirname E tsconfigPath) of
                Inl e \<Rightarrow> Inl e
              | Inr parsedConfig \<Rightarrow>
                 if errors parsedConfig \<noteq> [] then Inr (errors parsedConfig)
                 else
                   (case createProgram E (fileNames parsedConfig) (options parsedConfig) of
                      Inl e \<Rightarrow> Inl e
                    | Inr program \<Rightarrow>
                       Inr (getSemanticDiagnostics program @ getSyntacticDiagnostics program @
                            getDeclarationDiagnostics program @
                            getConfigFileParsingDiagnostics program)))))"

text \<open>
  The raw diagnostics of the unit at a path when it is processed with the interruption
  flag clear: none without a \<^verbatim>\<open>tsconfig.json\<close>, none when the check throws.
\<close>

definition unitDiagnostics :: "Env \<Rightarrow> string \<Rightarrow> Diagnostic list" where
  "unitDiagnostics E packagePath =
     (case findTsConfig E packagePath of
        None \<Rightarrow> []
      | Some tsconfigPath \<Rightarrow>
         (case projectDiagnostics E tsconfigPath of Inl e \<Rightarrow> [] | Inr ds \<Rightarrow> ds))"

text \<open>The records of a package's unit, identifiers blanked.\<close>

definition unitRecords :: "Env \<Rightarrow> PackageInfo \<Rightarrow> TypeScriptError list" where
  "unitRecords E pkg = map (formatDiagnostic E (name pkg) 0) (unitDiagnostics E (path pkg))"

text \<open>What \<^verbatim>\<open>escapeField\<close> makes of a string, and the five fields of a record's row.\<close>

definition escaped :: "string \<Rightarrow> string" where
  "escaped s = replaceAll CR [] (replaceAll LF '' '' (replaceAll TAB '' '' s))"

definition rowFields :: "TypeScriptError \<Rightarrow> string list" where
  "rowFields r =
     [toString (id' r),
      (case packageName r of JStr s \<Rightarrow> escaped s | _ \<Rightarrow> []),
      escaped (fileName r),
      toString (errorCode r),
      escaped (description r)]"

text \<open>A field value with no raw tab, newline or carriage return.\<close>

definition clean :: "string \<Rightarrow> bool" where
  "clean f = (TAB \<notin> set f \<and> LF \<notin> set f \<and> CR \<notin> set f)"

section \<open>A small repository, for the concrete instances\<close>

definition exFile :: SourceFile where
  "exFile = \<lparr> sf_fileName = ''/repo/packages/a/src/index.ts'',
              getLineAndCharacterOfPosition = (\<lambda>pos. (pos div 40, pos mod 40)) \<rparr>"

definition exDiag1 :: Diagnostic where
  "exDiag1 = \<lparr> diag_category = Error, diag_code = 2322,
               diag_messageText = Inl ''Type mismatch'',
               diag_file = Some exFile, diag_start = Some 85 \<rparr>"

definition exDiag2 :: Diagnostic where
  "exDiag2 = \<lparr> diag_category = Warning, diag_code = 6133,
               diag_messageText =
                 Inr (DiagnosticMessageChain ''Unused'' [DiagnosticMessageChain ''detail'' []]),
               diag_file = None, diag_start = None \<rparr>"

definition exDiag3 :: Diagnostic where
  "exDiag3 = \<lparr> diag_category = Error, diag_code = 5023,
               diag_messageText = Inl ''Unknown option'',
               diag_file = None, diag_start = Some 0 \<rparr>"

definition exDiagRead :: Diagnostic where
  "exDiagRead = \<lparr> diag_category = Error, diag_code = 1005,
                  diag_messageText = Inl ''Comma expected'',
                  diag_file = None, diag_start = None \<rparr>"

text \<open>
  Units \<open>a\<close> (two program diagnostics), \<open>b\<close> (its \<^verbatim>\<open>tsconfig.json\<close> is reported unreadable),
  \<open>c\<close> (one error from parsing the configuration), \<open>d\<close> (no \<^verbatim>\<open>tsconfig.json\<close>) and \<open>e\<close>
  (the type check throws).
\<close>

definition exEnv :: Env where
  "exEnv =
     \<lparr> files = (\<lambda>p. if p = ''/repo/packages/a/tsconfig.json'' \<or> p = ''/repo/packages/c/tsconfig.json''
                        \<or> p = ''/repo/packages/e/tsconfig.json''
                     then Some (Json (JObj []))
                     else if p = ''/repo/packages/b/tsconfig.json'' then Some NoJson
                     else None),
       path_resolve = (\<lambda>a b. a @ ''/'' @ b),
       path_join = (\<lambda>a b. a @ ''/'' @ b),
       path_dirname = (\<lambda>p. rev (tl (dropWhile (\<lambda>ch. ch \<noteq> CHR ''/'') (rev p)))),
       path_relative_cwd = drop 6,
       readConfigFile =
         (\<lambda>p. if p = ''/repo/packages/b/tsconfig.json''
              then Inr \<lparr> config = Some (JObj []), error = Some exDiagRead \<rparr>
              else Inr \<lparr> config = Some (JObj []), error = None \<rparr>),
       parseJsonConfigFileContent =
         (\<lambda>cfg dir. if dir = ''/repo/packages/c''
                    then Inr \<lparr> options = JObj [], fileNames = [], errors = [exDiag3] \<rparr>
                    else Inr \<lparr> options = JObj [], fileNames = [dir @ ''/src/index.ts''],
                               errors = [] \<rparr>),
       createProgram =
         (\<lambda>roots opts.
            if roots = [''/repo/packages/a/src/index.ts'']
            then Inr \<lparr> getSemanticDiagnostics = [exDiag1], getSyntacticDiagnostics = [],
                       getDeclarationDiagnostics = [],
                       getConfigFileParsingDiagnostics = [exDiag2] \<rparr>
            else if roots = [''/repo/packages/e/src/index.ts''] then Inl TypeError
            else Inr \<lparr> getSemanticDiagnostics = [], getSyntacticDiagnostics = [],
                       getDeclarationDiagnostics = [],
                       getConfigFileParsingDiagnostics = [] \<rparr>),
       turbo_detect = (\<lambda>root. Inr False),
       turbo_getPackages = (\<lambda>root. Inr []),
       pnpm_getPackages = (\<lambda>root. Inr []),
       npm_getPackages = (\<lambda>root. Inr []),
       lerna_getPackages = (\<lambda>root. Inr []),
       nx_getPackages = (\<lambda>root. Inr []) \<rparr>"

definition exPkg :: "string \<Rightarrow> PackageInfo" where
  "exPkg n = \<lparr> name = JStr n, path = ''/repo/packages/'' @ n, version = None \<rparr>"

definition exInfo :: "PackageInfo list \<Rightarrow> MonorepoInfo" where
  "exInfo pkgs = \<lparr> isMonorepo = True, monorepoType = npm, rootPath = ''/repo'', packages = pkgs \<rparr>"

text \<open>A collector left over from an earlier, interrupted run.\<close>

definition exStale :: Collector where
  "exStale = \<lparr> errorIdCounter = 41, interrupted = True \<rparr>"

definition exRecA1 :: TypeScriptError where
  "exRecA1 = \<lparr> id' = 0, packageName = JStr ''a'', fileName = ''packages/a/src/index.ts'',
               errorCode = 2322, description = ''Type mismatch'', line = Some 3,
               column = Some 6, category = Some ''error'' \<rparr>"

definition exRecA2 :: TypeScriptError where
  "exRecA2 = \<lparr> id' = 0, packageName = JStr ''a'', fileName = ''unknown'',
               errorCode = 6133, description = ''Unused'', line = None,
               column = None, category = Some ''warning'' \<rparr>"

definition exRecC1 :: TypeScriptError where
  "exRecC1 = \<lparr> id' = 0, packageName = JStr ''c'', fileName = ''unknown'',
               errorCode = 5023, description = ''Unknown option'', line = None,
               column = None, category = Some ''error'' \<rparr>"

text \<open>Roots for the detectors: the example environment with a manifest at \<open>/repo\<close>.\<close>

definition exWithManifest :: "json \<Rightarrow> Env" where
  "exWithManifest m = exEnv\<lparr> files := (files exEnv)(''/repo/package.json'' := Some (Json m)) \<rparr>"

definition exManifestFoo :: json where
  "exManifestFoo = JObj [(''name'', JStr ''foo''), (''version'', JStr ''1.0.0'')]"

definition exManifestEmptyWorkspaces :: json where
  "exManifestEmptyWorkspaces =
     JObj [(''name'', JStr ''foo''), (''workspaces'', JObj [(''packages'', JArr [])])]"

definition exManifestWorkspaces :: json where
  "exManifestWorkspaces =
     JObj [(''name'', JStr ''foo''), (''workspaces'', JArr [JStr ''packages/*''])]"

text \<open>A root that satisfies the npm condition and that the turbo detector detects.\<close>

definition exEnvTurbo :: Env where
  "exEnvTurbo =
     (exWithManifest exManifestWorkspaces)
       \<lparr> turbo_detect := (\<lambda>root. Inr True),
         turbo_getPackages := (\<lambda>root. Inr [exPkg ''a'']),
         npm_getPackages := (\<lambda>root. Inr [exPkg ''a'', exPkg ''c'']) \<rparr>"

text \<open>Custom detectors: one that detects every root, one named \<open>none\<close>, one that throws.\<close>

definition exCustomDetector :: MonorepoDetector where
  "exCustomDetector =
     \<lparr> detectorName = lerna, detect = (\<lambda>E root. Inr True),
       getPackages = (\<lambda>E root. Inr [exPkg ''c'']) \<rparr>"

definition exNoneDetector :: MonorepoDetector where
  "exNoneDetector =
     \<lparr> detectorName = none, detect = (\<lambda>E root. Inr True), getPackages = (\<lambda>E root. Inr []) \<rparr>"

definition exThrowingDetector :: MonorepoDetector where
  "exThrowingDetector =
     \<lparr> detectorName = nx, detect = (\<lambda>E root. Inl TypeError),
       getPackages = (\<lambda>E root. Inl TypeError) \<rparr>"

text \<open>The directory of unit \<open>c\<close> as a root of its own, with a manifest that declares workspaces.\<close>

definition exEnvNested :: Env where
  "exEnvNested =
     exEnv\<lparr> files := (files exEnv)(''/repo/packages/c/package.json'' :=
                         Some (Json exManifestWorkspaces)) \<rparr>"

text \<open>A record whose description holds a tab, a newline and a carriage return.\<close>

definition exRecDirty :: TypeScriptError where
  "exRecDirty = \<lparr> id' = 2, packageName = JStr ''b'', fileName = ''src/x.ts'',
                  errorCode = 1005,
                  description = ''a'' @ [TAB] @ ''b'' @ [LF] @ ''c'' @ [CR],
                  line = None, column = None, category = Some ''error'' \<rparr>"

section \<open>The collector: normalization and numbering\<close>

lemma formatDiagnostics_length:
  "length (fst (formatDiagnostics E c ds pn)) = length ds"
  by (induction ds arbitrary: c) (simp_all add: Let_def split_beta)

lemma formatDiagnostics_counter:
  "errorIdCounter (snd (formatDiagnostics E c ds pn)) = errorIdCounter c + int (length ds)"
  by (induction ds arbitrary: c) (simp_all add: Let_def split_beta)

lemma formatDiagnostics_interrupted:
  "interrupted (snd (formatDiagnostics E c ds pn)) = interrupted c"
  by (induction ds arbitrary: c) (simp_all add: Let_def split_beta)

lemma formatDiagnostics_ids:
  "map id' (fst (formatDiagnostics E c ds pn)) =
     [errorIdCounter c + 1 .. errorIdCounter c + int (length ds)]"
proof (induction ds arbitrary: c)
  case Nil
  then show ?case by simp
next
  case (Cons d ds)
  have "[errorIdCounter c + 1 .. errorIdCounter c + int (length (d # ds))] =
        (errorIdCounter c + 1) # [errorIdCounter c + 1 + 1 .. errorIdCounter c + 1 + int (length ds)]"
    by (subst upto_rec1) (simp_all add: add.assoc)
  with Cons [of "c\<lparr>errorIdCounter := errorIdCounter c + 1\<rparr>"] show ?case
    by (simp add: Let_def split_beta formatDiagnostic_def)
qed

lemma formatDiagnostics_withoutId:
  "map withoutId (fst (formatDiagnostics E c ds pn)) = map (formatDiagnostic E pn 0) ds"
  by (induction ds arbitrary: c)
     (simp_all add: Let_def split_beta withoutId_def formatDiagnostic_def)

lemma formatDiagnostics_nth:
  "i < length ds \<Longrightarrow>
   fst (formatDiagnostics E c ds pn) ! i =
     formatDiagnostic E pn (errorIdCounter c + 1 + int i) (ds ! i)"
proof (induction ds arbitrary: c i)
  case Nil
  then show ?case by simp
next
  case (Cons d ds)
  show ?case
  proof (cases i)
    case 0
    then show ?thesis by (simp add: Let_def split_beta)
  next
    case (Suc j)
    with Cons.prems have "j < length ds" by simp
    from Cons.IH [OF this, of "c\<lparr>errorIdCounter := errorIdCounter c + 1\<rparr>"] Suc
    show ?thesis by (simp add: Let_def split_beta ac_simps)
  qed
qed


lemma collectErrorsFromProject_eq:
  "collectErrorsFromProject E c t pn =
     (case projectDiagnostics E t of
        Inl e \<Rightarrow> Inl e
      | Inr ds \<Rightarrow> Inr (formatDiagnostics E c ds pn))"
  by (auto simp: collectErrorsFromProject_def projectDiagnostics_def
           split: sum.splits option.splits)

lemma collectFromPath_eq:
  "collectFromPath E c p pn =
     (if interrupted c then ([], c) else formatDiagnostics E c (unitDiagnostics E p) pn)"
  by (auto simp: collectFromPath_def unitDiagnostics_def collectErrorsFromProject_eq
           split: sum.splits option.splits)

lemma collectFromPath_interrupted:
  "interrupted (snd (collectFromPath E c p pn)) = interrupted c"
  by (simp add: collectFromPath_eq formatDiagnostics_interrupted)

lemma collectFromPath_counter:
  "errorIdCounter (snd (collectFromPath E c p pn)) =
     errorIdCounter c + int (length (fst (collectFromPath E c p pn)))"
  by (simp add: collectFromPath_eq formatDiagnostics_counter formatDiagnostics_length)

lemma collectFromPath_ids:
  "map id' (fst (collectFromPath E c p pn)) =
     [errorIdCounter c + 1 .. errorIdCounter c + int (length (fst (collectFromPath E c p pn)))]"
  by (simp add: collectFromPath_eq formatDiagnostics_ids formatDiagnostics_length)

lemma upto_append_next:
  "[n + 1 .. n + int a] @ [n + int a + 1 .. n + int a + int b] = [n + 1 .. n + int a + int b]"
proof (cases a)
  case 0
  then show ?thesis by simp
next
  case (Suc a')
  then show ?thesis
    using upto_split2 [of "n + 1" "n + int a" "n + int a + int b"] by simp
qed

lemma collect_loop_interrupted:
  "interrupted c \<Longrightarrow> pkgs \<noteq> [] \<Longrightarrow>
   collect_loop E sig c pkgs i acc = (c, Inl (JsError ''Interrupted by user''))"
  by (cases pkgs) simp_all

lemma collect_loop_ids:
  "collect_loop E sig c pkgs i acc = (c', Inr out) \<Longrightarrow>
   map id' acc = [1 .. int (length acc)] \<Longrightarrow> errorIdCounter c = int (length acc) \<Longrightarrow>
   map id' out = [1 .. int (length out)] \<and> errorIdCounter c' = int (length out)"
proof (induction pkgs arbitrary: c i acc)
  case Nil
  then show ?case by auto
next
  case (Cons pkg pkgs)
  from Cons.prems(1) have ni: "\<not> interrupted c"
    by (auto split: if_splits)
  define c1 where "c1 = c\<lparr>interrupted := interrupted c \<or> sig i\<rparr>"
  define errs where "errs = fst (collectFromPath E c1 (path pkg) (name pkg))"
  define c2 where "c2 = snd (collectFromPath E c1 (path pkg) (name pkg))"
  from Cons.prems(1) ni
  have run: "collect_loop E sig c2 pkgs (Suc i) (acc @ errs) = (c', Inr out)"
    by (simp add: Let_def split_beta c1_def errs_def c2_def)
  have cnt: "errorIdCounter c2 = int (length (acc @ errs))"
    using Cons.prems(3) collectFromPath_counter [of E c1 "path pkg" "name pkg"]
    by (simp add: c1_def errs_def c2_def)
  have "map id' errs = [int (length acc) + 1 .. int (length acc) + int (length errs)]"
    using Cons.prems(3) collectFromPath_ids [of E c1 "path pkg" "name pkg"]
    by (simp add: c1_def errs_def)
  then have ids: "map id' (acc @ errs) = [1 .. int (length (acc @ errs))]"
    using Cons.prems(2) upto_append_next [of 0 "length acc" "length errs"] by simp
  from Cons.IH [OF run ids cnt] show ?case .
qed


lemma collectFromPath_withoutId:
  "\<not> interrupted c \<Longrightarrow>
   map withoutId (fst (collectFromPath E c (path pkg) (name pkg))) = unitRecords E pkg"
  by (simp add: collectFromPath_eq formatDiagnostics_withoutId unitRecords_def)

lemma collect_loop_uninterrupted:
  "\<not> interrupted c \<Longrightarrow> (\<forall>k<length pkgs. \<not> sig (i + k)) \<Longrightarrow>
   \<exists>c' rs. collect_loop E sig c pkgs i acc = (c', Inr (acc @ rs)) \<and>
           map withoutId rs = concat (map (unitRecords E) pkgs)"
proof (induction pkgs arbitrary: c i acc)
  case Nil
  then show ?case by simp
next
  case (Cons pkg pkgs)
  from Cons.prems(2) have "\<not> sig (i + 0)" by blast
  then have nsig: "\<not> sig i" by simp
  from Cons.prems(1) have c1: "c\<lparr>interrupted := False\<rparr> = c" by (cases c) simp
  define errs where "errs = fst (collectFromPath E c (path pkg) (name pkg))"
  define c2 where "c2 = snd (collectFromPath E c (path pkg) (name pkg))"
  have ni2: "\<not> interrupted c2"
    using Cons.prems(1) by (simp add: c2_def collectFromPath_interrupted)
  have later: "\<forall>k<length pkgs. \<not> sig (Suc i + k)"
  proof (intro allI impI)
    fix k assume "k < length pkgs"
    then have "Suc k < length (pkg # pkgs)" by simp
    with Cons.prems(2) have "\<not> sig (i + Suc k)" by blast
    then show "\<not> sig (Suc i + k)" by simp
  qed
  from Cons.IH [OF ni2 later, of "acc @ errs"] obtain c' rs where
    run: "collect_loop E sig c2 pkgs (Suc i) (acc @ errs) = (c', Inr ((acc @ errs) @ rs))" and
    recs: "map withoutId rs = concat (map (unitRecords E) pkgs)"
    by blast
  have step: "collect_loop E sig c (pkg # pkgs) i acc = (c', Inr (acc @ (errs @ rs)))"
    using Cons.prems(1) run by (simp add: nsig c1 split_beta errs_def c2_def)
  have "map withoutId (errs @ rs) = concat (map (unitRecords E) (pkg # pkgs))"
    using Cons.prems(1) recs by (simp add: errs_def collectFromPath_withoutId)
  with step show ?case by blast
qed

lemma collect_loop_signal:
  "\<not> interrupted c \<Longrightarrow> sig (i + k) \<Longrightarrow> (\<forall>j<k. \<not> sig (i + j)) \<Longrightarrow> Suc k < length pkgs \<Longrightarrow>
   collect_loop E sig c pkgs i acc =
     (\<lparr> errorIdCounter =
          errorIdCounter c + int (length (concat (map (unitRecords E) (take k pkgs)))),
        interrupted = True \<rparr>,
      Inl (JsError ''Interrupted by user''))"
proof (induction k arbitrary: c i acc pkgs)
  case 0
  then obtain p q rest where pkgs: "pkgs = p # q # rest"
    by (cases pkgs; cases "tl pkgs") auto
  from 0 have "sig i" by simp
  with 0(1) show ?case
    by (simp add: pkgs collectFromPath_eq)
next
  case (Suc k)
  then obtain p ps where pkgs: "pkgs = p # ps" by (cases pkgs) auto
  from Suc.prems(3) have "\<not> sig (i + 0)" by blast
  then have nsig: "\<not> sig i" by simp
  from Suc.prems(1) have c1: "c\<lparr>interrupted := False\<rparr> = c" by (cases c) simp
  define errs where "errs = fst (collectFromPath E c (path p) (name p))"
  define c2 where "c2 = snd (collectFromPath E c (path p) (name p))"
  have ni2: "\<not> interrupted c2"
    using Suc.prems(1) by (simp add: c2_def collectFromPath_interrupted)
  have len: "length errs = length (unitRecords E p)"
    using collectFromPath_withoutId [OF Suc.prems(1), of E p]
    by (metis errs_def length_map)
  have cnt: "errorIdCounter c2 = errorIdCounter c + int (length (unitRecords E p))"
    using collectFromPath_counter [of E c "path p" "name p"] len by (simp add: c2_def errs_def)
  have s: "sig (Suc i + k)" using Suc.prems(2) by simp
  have e: "\<forall>j<k. \<not> sig (Suc i + j)"
  proof (intro allI impI)
    fix j assume "j < k"
    then have "Suc j < Suc k" by simp
    with Suc.prems(3) have "\<not> sig (i + Suc j)" by blast
    then show "\<not> sig (Suc i + j)" by simp
  qed
  have l: "Suc k < length ps" using Suc.prems(4) by (simp add: pkgs)
  from Suc.IH [OF ni2 s e l, of "acc @ errs"] cnt
  show ?case
    using Suc.prems(1) by (simp add: pkgs nsig c1 split_beta errs_def c2_def ac_simps)
qed

lemma collect_loop_last_signal:
  "\<not> interrupted c \<Longrightarrow> (\<forall>k. Suc k < length pkgs \<longrightarrow> \<not> sig (i + k)) \<Longrightarrow>
   \<exists>c' rs. collect_loop E sig c pkgs i acc = (c', Inr rs)"
proof (induction pkgs arbitrary: c i acc)
  case Nil
  then show ?case by simp
next
  case (Cons pkg pkgs)
  show ?case
  proof (cases pkgs)
    case Nil
    with Cons.prems(1) show ?thesis by (simp add: split_beta Let_def)
  next
    case (Cons q rest)
    then have "Suc 0 < length (pkg # pkgs)" by simp
    with Cons.prems(2) have "\<not> sig (i + 0)" by blast
    then have nsig: "\<not> sig i" by simp
    from Cons.prems(1) have c1: "c\<lparr>interrupted := False\<rparr> = c" by (cases c) simp
    define c2 where "c2 = snd (collectFromPath E c (path pkg) (name pkg))"
    have ni2: "\<not> interrupted c2"
      using Cons.prems(1) by (simp add: c2_def collectFromPath_interrupted)
    have later: "\<forall>k. Suc k < length pkgs \<longrightarrow> \<not> sig (Suc i + k)"
    proof (intro allI impI)
      fix k assume "Suc k < length pkgs"
      then have "Suc (Suc k) < length (pkg # pkgs)" by simp
      with Cons.prems(2) have "\<not> sig (i + Suc k)" by blast
      then show "\<not> sig (Suc i + k)" by simp
    qed
    from Cons.IH [OF ni2 later] Cons.prems(1) show ?thesis
      by (simp add: nsig c1 split_beta c2_def)
  qed
qed


subsection \<open>The example repository, evaluated\<close>

lemma exUnit_a: "unitDiagnostics exEnv ''/repo/packages/a'' = [exDiag1, exDiag2]"
  by (simp add: unitDiagnostics_def findTsConfig_def existsSync_def projectDiagnostics_def exEnv_def)

lemma exUnit_b: "unitDiagnostics exEnv ''/repo/packages/b'' = []"
  by (simp add: unitDiagnostics_def findTsConfig_def existsSync_def projectDiagnostics_def exEnv_def)

lemma exUnit_c: "unitDiagnostics exEnv ''/repo/packages/c'' = [exDiag3]"
  by (simp add: unitDiagnostics_def findTsConfig_def existsSync_def projectDiagnostics_def exEnv_def)

lemma exUnit_d: "unitDiagnostics exEnv ''/repo/packages/d'' = []"
  by (simp add: unitDiagnostics_def findTsConfig_def existsSync_def projectDiagnostics_def exEnv_def)

lemma exUnit_e: "unitDiagnostics exEnv ''/repo/packages/e'' = []"
  by (simp add: unitDiagnostics_def findTsConfig_def existsSync_def projectDiagnostics_def exEnv_def)

lemma exFormat_1: "formatDiagnostic exEnv (JStr ''a'') n exDiag1 = exRecA1\<lparr>id' := n\<rparr>"
  by (simp add: formatDiagnostic_def exEnv_def exDiag1_def exFile_def exRecA1_def)

lemma exFormat_2: "formatDiagnostic exEnv (JStr ''a'') n exDiag2 = exRecA2\<lparr>id' := n\<rparr>"
  by (simp add: formatDiagnostic_def exEnv_def exDiag2_def exRecA2_def)

lemma exFormat_3: "formatDiagnostic exEnv (JStr ''c'') n exDiag3 = exRecC1\<lparr>id' := n\<rparr>"
  by (simp add: formatDiagnostic_def exEnv_def exDiag3_def exRecC1_def)

lemmas exUnits = exUnit_a exUnit_b exUnit_c exUnit_d exUnit_e exFormat_1 exFormat_2 exFormat_3

lemma exRun_abc:
  "collect exEnv (\<lambda>k. False) exStale ''/repo'' (exInfo [exPkg ''a'', exPkg ''b'', exPkg ''c'']) =
     (\<lparr> errorIdCounter = 3, interrupted = False \<rparr>,
      Inr [exRecA1\<lparr>id' := 1\<rparr>, exRecA2\<lparr>id' := 2\<rparr>, exRecC1\<lparr>id' := 3\<rparr>])"
  by (simp add: collect_def exInfo_def exPkg_def exStale_def collectFromPath_eq exUnits)

text \<open>
  Claim C1. Whenever \<^verbatim>\<open>collect\<close> returns a list, whatever the collector's state before the
  call, the number of packages and the signals received, the identifiers of the returned
  records are \<open>1, 2, \<dots>, N\<close> in this order, \<open>N\<close> being the number of records; the
  counter ends at \<open>N\<close>. The call resets the counter to 0 and each normalized diagnostic
  increments it once.
\<close>

theorem collect_ids_sequential:
  "collect E sig c root info = (c', Inr rs) \<Longrightarrow>
   map id' rs = [1 .. int (length rs)] \<and> errorIdCounter c' = int (length rs)"
proof (cases "packages info = []")
  case True
  assume run: "collect E sig c root info = (c', Inr rs)"
  define c0 where "c0 = c\<lparr>errorIdCounter := 0, interrupted := False\<rparr>"
  from run True have rs: "rs = fst (collectFromPath E c0 root (JStr ''root''))"
    and c': "c' = snd (collectFromPath E c0 root (JStr ''root''))"
    by (auto simp: collect_def c0_def split_beta Let_def)
  show ?thesis
    using collectFromPath_ids [of E c0 root "JStr ''root''"]
      collectFromPath_counter [of E c0 root "JStr ''root''"]
    by (simp add: rs c' c0_def)
next
  case False
  assume run: "collect E sig c root info = (c', Inr rs)"
  with False have
    "collect_loop E sig (c\<lparr>errorIdCounter := 0, interrupted := False\<rparr>) (packages info) 0 [] =
       (c', Inr rs)"
    by (simp add: collect_def)
  from collect_loop_ids [OF this] show ?thesis by simp
qed

theorem collect_ids_sequential_witness:
  "collect exEnv (\<lambda>k. False) exStale ''/repo'' (exInfo [exPkg ''a'', exPkg ''b'', exPkg ''c'']) =
     (\<lparr> errorIdCounter = 3, interrupted = False \<rparr>,
      Inr [exRecA1\<lparr>id' := 1\<rparr>, exRecA2\<lparr>id' := 2\<rparr>, exRecC1\<lparr>id' := 3\<rparr>]) \<and>
   map id' [exRecA1\<lparr>id' := 1\<rparr>, exRecA2\<lparr>id' := 2\<rparr>, exRecC1\<lparr>id' := 3\<rparr>] = [1 .. 3]"
  using exRun_abc collect_ids_sequential [OF exRun_abc] by simp

text \<open>
  Claim C8. In the records \<^verbatim>\<open>formatDiagnostics\<close> returns, the record of a diagnostic that
  carries a source file and a start offset has the line and the column the checker gives
  for that offset (counted from 0), each plus one; the record of any other diagnostic has
  neither line nor column, and its file name is \<open>unknown\<close>.
\<close>

theorem formatDiagnostics_position:
  assumes "formatDiagnostics E c ds pn = (rs, c')" and "i < length ds"
  shows "length rs = length ds \<and>
         (\<forall>f pos. diag_file (ds ! i) = Some f \<and> diag_start (ds ! i) = Some pos \<longrightarrow>
            line (rs ! i) = Some (fst (getLineAndCharacterOfPosition f pos) + 1) \<and>
            column (rs ! i) = Some (snd (getLineAndCharacterOfPosition f pos) + 1)) \<and>
         (diag_file (ds ! i) = None \<or> diag_start (ds ! i) = None \<longrightarrow>
            line (rs ! i) = None \<and> column (rs ! i) = None \<and> fileName (rs ! i) = ''unknown'')"
proof -
  from assms(1) have rs: "rs = fst (formatDiagnostics E c ds pn)" by simp
  have len: "length rs = length ds" by (simp add: rs formatDiagnostics_length)
  have nth: "rs ! i = formatDiagnostic E pn (errorIdCounter c + 1 + int i) (ds ! i)"
    using assms(2) by (simp add: rs formatDiagnostics_nth)
  show ?thesis
    by (auto simp: len nth formatDiagnostic_def Let_def split: option.splits)
qed

theorem formatDiagnostics_position_witness:
  "formatDiagnostics exEnv exStale [exDiag1, exDiag2] (JStr ''a'') =
     ([exRecA1\<lparr>id' := 42\<rparr>, exRecA2\<lparr>id' := 43\<rparr>], \<lparr> errorIdCounter = 43, interrupted = True \<rparr>) \<and>
   getLineAndCharacterOfPosition exFile 85 = (2, 5) \<and>
   line (exRecA1\<lparr>id' := 42\<rparr>) = Some 3 \<and> column (exRecA1\<lparr>id' := 42\<rparr>) = Some 6 \<and>
   line (exRecA2\<lparr>id' := 43\<rparr>) = None \<and> column (exRecA2\<lparr>id' := 43\<rparr>) = None \<and>
   fileName (exRecA2\<lparr>id' := 43\<rparr>) = ''unknown''"
proof -
  have run: "formatDiagnostics exEnv exStale [exDiag1, exDiag2] (JStr ''a'') =
     ([exRecA1\<lparr>id' := 42\<rparr>, exRecA2\<lparr>id' := 43\<rparr>], \<lparr> errorIdCounter = 43, interrupted = True \<rparr>)"
    by (simp add: exStale_def exFormat_1 exFormat_2)
  have f: "diag_file exDiag1 = Some exFile \<and> diag_start exDiag1 = Some 85"
    by (simp add: exDiag1_def)
  have n: "diag_file exDiag2 = None \<or> diag_start exDiag2 = None"
    by (simp add: exDiag2_def)
  from formatDiagnostics_position [OF run, of 0] formatDiagnostics_position [OF run, of 1] f n run
  show ?thesis
    by (simp add: exFile_def)
qed

section \<open>The collector: interruption and failing units\<close>

lemma collect_uninterrupted:
  assumes "packages info \<noteq> []" and "\<forall>k<length (packages info). \<not> sig k"
  shows "\<exists>c' rs. collect E sig c root info = (c', Inr rs) \<and>
           map withoutId rs = concat (map (unitRecords E) (packages info)) \<and>
           map id' rs = [1 .. int (length rs)]"
proof -
  define c0 where "c0 = c\<lparr>errorIdCounter := 0, interrupted := False\<rparr>"
  have ni: "\<not> interrupted c0" by (simp add: c0_def)
  from assms(2) have "\<forall>k<length (packages info). \<not> sig (0 + k)" by simp
  from collect_loop_uninterrupted [OF ni this, of E "[]"] obtain c' rs where
    run: "collect_loop E sig c0 (packages info) 0 [] = (c', Inr rs)" and
    recs: "map withoutId rs = concat (map (unitRecords E) (packages info))"
    by auto
  have "errorIdCounter c0 = int (length ([] :: TypeScriptError list))" by (simp add: c0_def)
  with collect_loop_ids [OF run] have "map id' rs = [1 .. int (length rs)]" by simp
  moreover from run assms(1) have "collect E sig c root info = (c', Inr rs)"
    by (simp add: collect_def c0_def)
  ultimately show ?thesis using recs by blast
qed

lemma unitDiagnostics_throws:
  assumes "findTsConfig E p = Some t" and "collectErrorsFromProject E c0 t pn0 = Inl e"
  shows "unitDiagnostics E p = []"
  using assms by (auto simp: unitDiagnostics_def collectErrorsFromProject_eq split: sum.splits)

lemma unitDiagnostics_config_errors:
  assumes "findTsConfig E p = Some t" and "readConfigFile E t = Inr cf" and "error cf = None"
    and "parseJsonConfigFileContent E (config cf) (path_dirname E t) = Inr pc"
    and "errors pc \<noteq> []"
  shows "unitDiagnostics E p = errors pc"
  using assms by (simp add: unitDiagnostics_def projectDiagnostics_def)

lemma collect_loop_signal_last:
  "\<not> interrupted c \<Longrightarrow> sig (i + k) \<Longrightarrow> (\<forall>j<k. \<not> sig (i + j)) \<Longrightarrow> Suc k = length pkgs \<Longrightarrow>
   \<exists>c' rs. collect_loop E sig c pkgs i acc = (c', Inr (acc @ rs)) \<and>
           map withoutId rs = concat (map (unitRecords E) (take k pkgs))"
proof (induction k arbitrary: c i acc pkgs)
  case 0
  then obtain p where pkgs: "pkgs = [p]"
    by (cases pkgs) auto
  from 0 have "sig i" by simp
  with 0(1) show ?case
    by (simp add: pkgs collectFromPath_eq)
next
  case (Suc k)
  then obtain p ps where pkgs: "pkgs = p # ps" by (cases pkgs) auto
  from Suc.prems(3) have "\<not> sig (i + 0)" by blast
  then have nsig: "\<not> sig i" by simp
  from Suc.prems(1) have c1: "c\<lparr>interrupted := False\<rparr> = c" by (cases c) simp
  define errs where "errs = fst (collectFromPath E c (path p) (name p))"
  define c2 where "c2 = snd (collectFromPath E c (path p) (name p))"
  have ni2: "\<not> interrupted c2"
    using Suc.prems(1) by (simp add: c2_def collectFromPath_interrupted)
  have s: "sig (Suc i + k)" using Suc.prems(2) by simp
  have e: "\<forall>j<k. \<not> sig (Suc i + j)"
  proof (intro allI impI)
    fix j assume "j < k"
    then have "Suc j < Suc k" by simp
    with Suc.prems(3) have "\<not> sig (i + Suc j)" by blast
    then show "\<not> sig (Suc i + j)" by simp
  qed
  have l: "Suc k = length ps" using Suc.prems(4) by (simp add: pkgs)
  from Suc.IH [OF ni2 s e l, of "acc @ errs"] obtain c' rs where
    run: "collect_loop E sig c2 ps (Suc i) (acc @ errs) = (c', Inr ((acc @ errs) @ rs))" and
    recs: "map withoutId rs = concat (map (unitRecords E) (take k ps))"
    by blast
  have step: "collect_loop E sig c pkgs i acc = (c', Inr (acc @ (errs @ rs)))"
    using Suc.prems(1) run by (simp add: pkgs nsig c1 split_beta errs_def c2_def)
  have "map withoutId (errs @ rs) = concat (map (unitRecords E) (take (Suc k) pkgs))"
    using Suc.prems(1) recs by (simp add: pkgs errs_def collectFromPath_withoutId)
  with step show ?case by blast
qed


text \<open>
  Claim C2, as the code has it. Let a SIGINT arrive for the first time during the yield
  before unit \<open>k\<close>. If another unit follows, unit \<open>k\<close> and every later unit are not
  checked (the counter stays at the number of records of the first \<open>k\<close> units), and at
  the next unit boundary \<^verbatim>\<open>collect\<close> throws \<^verbatim>\<open>Error("Interrupted by user")\<close>: the records
  accumulated so far are not returned. If unit \<open>k\<close> is the last one, no boundary follows,
  and \<^verbatim>\<open>collect\<close> returns the records of the units before it. Whenever no signal arrives
  before the yield of the last unit, \<^verbatim>\<open>collect\<close> returns a list.
\<close>

theorem collect_interruption:
  "(sig k \<and> (\<forall>j<k. \<not> sig j) \<and> Suc k < length (packages info) \<longrightarrow>
      collect E sig c root info =
        (\<lparr> errorIdCounter = int (length (concat (map (unitRecords E) (take k (packages info))))),
           interrupted = True \<rparr>,
         Inl (JsError ''Interrupted by user''))) \<and>
   (sig k \<and> (\<forall>j<k. \<not> sig j) \<and> Suc k = length (packages info) \<longrightarrow>
      (\<exists>c' rs. collect E sig c root info = (c', Inr rs) \<and>
         map withoutId rs = concat (map (unitRecords E) (take k (packages info))))) \<and>
   ((\<forall>j. Suc j < length (packages info) \<longrightarrow> \<not> sig j) \<longrightarrow>
      (\<exists>c' rs. collect E sig c root info = (c', Inr rs)))"
proof (intro conjI impI)
  assume a: "sig k \<and> (\<forall>j<k. \<not> sig j) \<and> Suc k < length (packages info)"
  define c0 where "c0 = c\<lparr>errorIdCounter := 0, interrupted := False\<rparr>"
  have ni: "\<not> interrupted c0" by (simp add: c0_def)
  from a have s: "sig (0 + k)" and e: "\<forall>j<k. \<not> sig (0 + j)" and l: "Suc k < length (packages info)"
    by simp_all
  from l have ne: "packages info \<noteq> []" by auto
  from collect_loop_signal [OF ni s e l, of E "[]"] ne
  show "collect E sig c root info =
        (\<lparr> errorIdCounter = int (length (concat (map (unitRecords E) (take k (packages info))))),
           interrupted = True \<rparr>,
         Inl (JsError ''Interrupted by user''))"
    by (simp add: collect_def c0_def)
next
  assume a: "sig k \<and> (\<forall>j<k. \<not> sig j) \<and> Suc k = length (packages info)"
  define c0 where "c0 = c\<lparr>errorIdCounter := 0, interrupted := False\<rparr>"
  have ni: "\<not> interrupted c0" by (simp add: c0_def)
  from a have s: "sig (0 + k)" and e: "\<forall>j<k. \<not> sig (0 + j)" and l: "Suc k = length (packages info)"
    by simp_all
  from l have ne: "packages info \<noteq> []" by auto
  from collect_loop_signal_last [OF ni s e l, of E "[]"] ne
  show "\<exists>c' rs. collect E sig c root info = (c', Inr rs) \<and>
         map withoutId rs = concat (map (unitRecords E) (take k (packages info)))"
    by (simp add: collect_def c0_def)
next
  assume a: "\<forall>j. Suc j < length (packages info) \<longrightarrow> \<not> sig j"
  define c0 where "c0 = c\<lparr>errorIdCounter := 0, interrupted := False\<rparr>"
  have ni: "\<not> interrupted c0" by (simp add: c0_def)
  from a have "\<forall>j. Suc j < length (packages info) \<longrightarrow> \<not> sig (0 + j)" by simp
  from collect_loop_last_signal [OF ni this, of E "[]"]
  show "\<exists>c' rs. collect E sig c root info = (c', Inr rs)"
    by (cases "packages info = []") (simp_all add: collect_def c0_def split_beta Let_def)
qed

text \<open>
  Three units, the signal arriving before the second: the first unit alone yields two
  records, and the run ends with the exception, not with these two records.
\<close>

lemma exRun_aca_signal:
  "collect exEnv (\<lambda>k. k = 1) exStale ''/repo'' (exInfo [exPkg ''a'', exPkg ''c'', exPkg ''a'']) =
     (\<lparr> errorIdCounter = 2, interrupted = True \<rparr>, Inl (JsError ''Interrupted by user''))"
  by (simp add: collect_def exInfo_def exPkg_def exStale_def collectFromPath_eq exUnits)

theorem collect_partial_result_counterexample:
  "fst (collectFromPath exEnv \<lparr> errorIdCounter = 0, interrupted = False \<rparr>
          ''/repo/packages/a'' (JStr ''a'')) =
     [exRecA1\<lparr>id' := 1\<rparr>, exRecA2\<lparr>id' := 2\<rparr>] \<and>
   snd (collect exEnv (\<lambda>k. k = 1) exStale ''/repo''
          (exInfo [exPkg ''a'', exPkg ''c'', exPkg ''a''])) =
     Inl (JsError ''Interrupted by user'') \<and>
   snd (collect exEnv (\<lambda>k. k = 1) exStale ''/repo''
          (exInfo [exPkg ''a'', exPkg ''c'', exPkg ''a''])) \<noteq>
     Inr [exRecA1\<lparr>id' := 1\<rparr>, exRecA2\<lparr>id' := 2\<rparr>]"
  using exRun_aca_signal by (simp add: collectFromPath_eq exUnits)

theorem collect_interruption_witness:
  "collect exEnv (\<lambda>k. k = 1) exStale ''/repo'' (exInfo [exPkg ''c'', exPkg ''d'', exPkg ''a'']) =
     (\<lparr> errorIdCounter = 1, interrupted = True \<rparr>, Inl (JsError ''Interrupted by user'')) \<and>
   (\<exists>c' rs. collect exEnv (\<lambda>k. k = 2) exStale ''/repo''
              (exInfo [exPkg ''c'', exPkg ''d'', exPkg ''a'']) = (c', Inr rs) \<and>
            map withoutId rs = [exRecC1]) \<and>
   (\<exists>c' rs. collect exEnv (\<lambda>k. False) exStale ''/repo''
              (exInfo [exPkg ''c'', exPkg ''d'', exPkg ''a'']) = (c', Inr rs))"
proof -
  let ?info = "exInfo [exPkg ''c'', exPkg ''d'', exPkg ''a'']"
  have h1: "(1::nat) = 1 \<and> (\<forall>j<1::nat. \<not> j = 1) \<and> Suc 1 < length (packages ?info)"
    by (simp add: exInfo_def)
  have h2: "(2::nat) = 2 \<and> (\<forall>j<2::nat. \<not> j = 2) \<and> Suc 2 = length (packages ?info)"
    by (simp add: exInfo_def)
  have h3: "\<forall>j. Suc j < length (packages ?info) \<longrightarrow> \<not> False"
    by simp
  have t1: "int (length (concat (map (unitRecords exEnv) (take 1 (packages ?info))))) = 1"
    by (simp add: exInfo_def exPkg_def unitRecords_def exUnits)
  have t2: "concat (map (unitRecords exEnv) (take 2 (packages ?info))) = [exRecC1]"
    by (simp add: exInfo_def exPkg_def unitRecords_def exUnits exRecC1_def numeral_2_eq_2)
  from collect_interruption [of "\<lambda>k. k = 1" 1 ?info exEnv exStale "''/repo''"] h1 t1
  have 1: "collect exEnv (\<lambda>k. k = 1) exStale ''/repo'' ?info =
     (\<lparr> errorIdCounter = 1, interrupted = True \<rparr>, Inl (JsError ''Interrupted by user''))"
    by simp
  from collect_interruption [of "\<lambda>k. k = 2" 2 ?info exEnv exStale "''/repo''"] h2 t2
  have 2: "\<exists>c' rs. collect exEnv (\<lambda>k. k = 2) exStale ''/repo'' ?info = (c', Inr rs) \<and>
            map withoutId rs = [exRecC1]"
    by simp
  from collect_interruption [of "\<lambda>k. False" 0 ?info exEnv exStale "''/repo''"] h3
  have 3: "\<exists>c' rs. collect exEnv (\<lambda>k. False) exStale ''/repo'' ?info = (c', Inr rs)"
    by blast
  from 1 2 3 show ?thesis by blast
qed

text \<open>
  Claim C6. Let the unit at path \<open>p\<close> have a \<^verbatim>\<open>tsconfig.json\<close> and let reading it, parsing
  it or checking the project throw. Then the unit contributes no record and leaves the
  collector as it was; a run without interruption that has the unit among its packages
  returns a list, made of the records of the units before it followed by those of the
  units after it, numbered \<open>1..N\<close>; and a run that has it as its only unit, the root,
  returns the empty list.
\<close>

theorem unit_exception_contained:
  assumes "findTsConfig E p = Some t" and "collectErrorsFromProject E c0 t pn0 = Inl e"
  shows "collectFromPath E c1 p pn = ([], c1) \<and>
         (packages info = pre @ u # post \<and> path u = p \<and> (\<forall>k<length (packages info). \<not> sig k) \<longrightarrow>
            (\<exists>c' rs. collect E sig c root info = (c', Inr rs) \<and>
               map withoutId rs =
                 concat (map (unitRecords E) pre) @ concat (map (unitRecords E) post) \<and>
               map id' rs = [1 .. int (length rs)])) \<and>
         (packages info' = [] \<longrightarrow>
            collect E sig' c p info' = (c\<lparr>errorIdCounter := 0, interrupted := False\<rparr>, Inr []))"
proof (intro conjI impI)
  have none: "unitDiagnostics E p = []"
    using assms by (rule unitDiagnostics_throws)
  show unit: "collectFromPath E c1 p pn = ([], c1)" for c1 pn
    by (simp add: collectFromPath_eq none)
  show "collect E sig' c p info' = (c\<lparr>errorIdCounter := 0, interrupted := False\<rparr>, Inr [])"
    if "packages info' = []"
    using that by (simp add: collect_def unit)
  show "\<exists>c' rs. collect E sig c root info = (c', Inr rs) \<and>
          map withoutId rs = concat (map (unitRecords E) pre) @ concat (map (unitRecords E) post) \<and>
          map id' rs = [1 .. int (length rs)]"
    if a: "packages info = pre @ u # post \<and> path u = p \<and> (\<forall>k<length (packages info). \<not> sig k)"
  proof -
    from a have ne: "packages info \<noteq> []" by auto
    from a have quiet: "\<forall>k<length (packages info). \<not> sig k" by blast
    from a none have "unitRecords E u = []" by (simp add: unitRecords_def)
    with a have "concat (map (unitRecords E) (packages info)) =
                 concat (map (unitRecords E) pre) @ concat (map (unitRecords E) post)"
      by simp
    with collect_uninterrupted [OF ne quiet, of E c root] show ?thesis by simp
  qed
qed

theorem unit_exception_contained_witness:
  "findTsConfig exEnv ''/repo/packages/e'' = Some ''/repo/packages/e/tsconfig.json'' \<and>
   collectErrorsFromProject exEnv exStale ''/repo/packages/e/tsconfig.json'' (JStr ''e'') =
     Inl TypeError \<and>
   collectFromPath exEnv \<lparr> errorIdCounter = 2, interrupted = False \<rparr> ''/repo/packages/e''
       (JStr ''e'') = ([], \<lparr> errorIdCounter = 2, interrupted = False \<rparr>) \<and>
   (\<exists>c' rs. collect exEnv (\<lambda>k. False) exStale ''/repo''
              (exInfo [exPkg ''a'', exPkg ''e'', exPkg ''c'']) = (c', Inr rs) \<and>
            map withoutId rs = [exRecA1, exRecA2, exRecC1] \<and> map id' rs = [1 .. 3]) \<and>
   collect exEnv (\<lambda>k. False) exStale ''/repo/packages/e'' (exInfo []) =
     (\<lparr> errorIdCounter = 0, interrupted = False \<rparr>, Inr [])"
proof -
  let ?info = "exInfo [exPkg ''a'', exPkg ''e'', exPkg ''c'']"
  have h1: "findTsConfig exEnv ''/repo/packages/e'' = Some ''/repo/packages/e/tsconfig.json''"
    by (simp add: findTsConfig_def existsSync_def exEnv_def)
  have h2: "collectErrorsFromProject exEnv exStale ''/repo/packages/e/tsconfig.json'' (JStr ''e'') =
     Inl TypeError"
    by (simp add: collectErrorsFromProject_def exEnv_def)
  have h3: "packages ?info = [exPkg ''a''] @ exPkg ''e'' # [exPkg ''c''] \<and>
            path (exPkg ''e'') = ''/repo/packages/e'' \<and>
            (\<forall>k<length (packages ?info). \<not> False)"
    by (simp add: exInfo_def exPkg_def)
  have h4: "packages (exInfo []) = []" by (simp add: exInfo_def)
  have recs: "concat (map (unitRecords exEnv) [exPkg ''a'']) @
              concat (map (unitRecords exEnv) [exPkg ''c'']) = [exRecA1, exRecA2, exRecC1]"
    by (simp add: unitRecords_def exPkg_def exUnits exRecA1_def exRecA2_def exRecC1_def)
  from unit_exception_contained [OF h1 h2,
         of "\<lparr> errorIdCounter = 2, interrupted = False \<rparr>" "JStr ''e''" ?info "[exPkg ''a'']"
            "exPkg ''e''" "[exPkg ''c'']" "\<lambda>k. False" exStale "''/repo''" "exInfo []" "\<lambda>k. False"]
       h1 h2 h3 h4
  have "collectFromPath exEnv \<lparr> errorIdCounter = 2, interrupted = False \<rparr> ''/repo/packages/e''
          (JStr ''e'') = ([], \<lparr> errorIdCounter = 2, interrupted = False \<rparr>)"
    and "\<exists>c' rs. collect exEnv (\<lambda>k. False) exStale ''/repo'' ?info = (c', Inr rs) \<and>
            map withoutId rs = concat (map (unitRecords exEnv) [exPkg ''a'']) @
              concat (map (unitRecords exEnv) [exPkg ''c'']) \<and> map id' rs = [1 .. int (length rs)]"
    and "collect exEnv (\<lambda>k. False) exStale ''/repo/packages/e'' (exInfo []) =
          (exStale\<lparr>errorIdCounter := 0, interrupted := False\<rparr>, Inr [])"
    by blast+
  then show ?thesis
    using h1 h2 recs by (auto simp: exStale_def dest: arg_cong [where f = length])
qed

text \<open>
  Claim C4, as the code has it. In a run without interruption, a unit whose
  \<^verbatim>\<open>tsconfig.json\<close> is read without a reported error and whose parsing
  (\<^verbatim>\<open>parseJsonConfigFileContent\<close>) reports errors contributes these errors, normalized
  like any diagnostic and numbered in sequence with the other units' records. A unit for
  whose \<^verbatim>\<open>tsconfig.json\<close> \<^verbatim>\<open>readConfigFile\<close> reports an error (an unreadable file, text that
  is not well-formed) contributes no record: the error is thrown and caught at the
  unit boundary.
\<close>

theorem config_parse_errors_reported:
  assumes "findTsConfig E (path u) = Some t"
    and "readConfigFile E t = Inr cf"
    and "packages info = pre @ u # post"
    and "\<forall>k<length (packages info). \<not> sig k"
  shows "(error cf = None \<and>
          parseJsonConfigFileContent E (config cf) (path_dirname E t) = Inr pc \<and>
          errors pc \<noteq> [] \<longrightarrow>
           (\<exists>c' rs. collect E sig c root info = (c', Inr rs) \<and>
              map withoutId rs =
                concat (map (unitRecords E) pre) @
                map (formatDiagnostic E (name u) 0) (errors pc) @
                concat (map (unitRecords E) post) \<and>
              map id' rs = [1 .. int (length rs)])) \<and>
         (error cf \<noteq> None \<longrightarrow>
           (\<exists>c' rs. collect E sig c root info = (c', Inr rs) \<and>
              map withoutId rs =
                concat (map (unitRecords E) pre) @ concat (map (unitRecords E) post) \<and>
              map id' rs = [1 .. int (length rs)]))"
proof -
  from assms(3) have ne: "packages info \<noteq> []" by auto
  from collect_uninterrupted [OF ne assms(4), of E c root] obtain c' rs where
    run: "collect E sig c root info = (c', Inr rs)" and
    recs: "map withoutId rs =
             concat (map (unitRecords E) pre) @ unitRecords E u @ concat (map (unitRecords E) post)"
    and ids: "map id' rs = [1 .. int (length rs)]"
    by (auto simp: assms(3))
  have parse: "unitRecords E u = map (formatDiagnostic E (name u) 0) (errors pc)"
    if "error cf = None"
      and "parseJsonConfigFileContent E (config cf) (path_dirname E t) = Inr pc"
      and "errors pc \<noteq> []"
    using unitDiagnostics_config_errors [OF assms(1) assms(2) that]
    by (simp add: unitRecords_def)
  have "unitDiagnostics E (path u) = []" if "error cf \<noteq> None"
    using that assms(1) assms(2)
    by (auto simp: unitDiagnostics_def projectDiagnostics_def)
  then have read: "unitRecords E u = []" if "error cf \<noteq> None"
    using that by (simp add: unitRecords_def)
  from run recs ids parse read show ?thesis by auto
qed

theorem config_parse_errors_reported_witness:
  "(\<exists>c' rs. collect exEnv (\<lambda>k. False) exStale ''/repo''
              (exInfo [exPkg ''a'', exPkg ''c'', exPkg ''d'']) = (c', Inr rs) \<and>
            map withoutId rs = [exRecA1, exRecA2, exRecC1] \<and> map id' rs = [1 .. 3]) \<and>
   (\<exists>c' rs. collect exEnv (\<lambda>k. False) exStale ''/repo''
              (exInfo [exPkg ''a'', exPkg ''b'', exPkg ''c'']) = (c', Inr rs) \<and>
            map withoutId rs = [exRecA1, exRecA2, exRecC1] \<and> map id' rs = [1 .. 3])"
proof -
  let ?acd = "exInfo [exPkg ''a'', exPkg ''c'', exPkg ''d'']"
  let ?abc = "exInfo [exPkg ''a'', exPkg ''b'', exPkg ''c'']"
  let ?ok = "\<lparr> config = Some (JObj []), error = None \<rparr>"
  let ?bad = "\<lparr> config = Some (JObj []), error = Some exDiagRead \<rparr>"
  let ?pc = "\<lparr> options = JObj [], fileNames = [], errors = [exDiag3] \<rparr>"
  have c1: "findTsConfig exEnv (path (exPkg ''c'')) = Some ''/repo/packages/c/tsconfig.json''"
    and c2: "readConfigFile exEnv ''/repo/packages/c/tsconfig.json'' = Inr ?ok"
    and c3: "packages ?acd = [exPkg ''a''] @ exPkg ''c'' # [exPkg ''d'']"
    and q1: "\<forall>k<length (packages ?acd). \<not> False"
    and c4: "error ?ok = None \<and>
             parseJsonConfigFileContent exEnv (config ?ok)
               (path_dirname exEnv ''/repo/packages/c/tsconfig.json'') = Inr ?pc \<and>
             errors ?pc \<noteq> []"
    by (simp_all add: findTsConfig_def existsSync_def exEnv_def exPkg_def exInfo_def)
  have b1: "findTsConfig exEnv (path (exPkg ''b'')) = Some ''/repo/packages/b/tsconfig.json''"
    and b2: "readConfigFile exEnv ''/repo/packages/b/tsconfig.json'' = Inr ?bad"
    and b3: "packages ?abc = [exPkg ''a''] @ exPkg ''b'' # [exPkg ''c'']"
    and q2: "\<forall>k<length (packages ?abc). \<not> False"
    and b4: "error ?bad \<noteq> None"
    by (simp_all add: findTsConfig_def existsSync_def exEnv_def exPkg_def exInfo_def)
  have r1: "concat (map (unitRecords exEnv) [exPkg ''a'']) @
            map (formatDiagnostic exEnv (name (exPkg ''c'')) 0) (errors ?pc) @
            concat (map (unitRecords exEnv) [exPkg ''d'']) = [exRecA1, exRecA2, exRecC1]"
    and r2: "concat (map (unitRecords exEnv) [exPkg ''a'']) @
             concat (map (unitRecords exEnv) [exPkg ''c'']) = [exRecA1, exRecA2, exRecC1]"
    by (simp_all add: unitRecords_def exPkg_def exUnits exRecA1_def exRecA2_def exRecC1_def)
  from config_parse_errors_reported [OF c1 c2 c3 q1, of ?pc exStale "''/repo''"] c4 r1
  have "\<exists>c' rs. collect exEnv (\<lambda>k. False) exStale ''/repo'' ?acd = (c', Inr rs) \<and>
          map withoutId rs = [exRecA1, exRecA2, exRecC1] \<and> map id' rs = [1 .. int (length rs)]"
    by simp
  moreover
  from config_parse_errors_reported [OF b1 b2 b3 q2, of ?pc exStale "''/repo''"] b4 r2
  have "\<exists>c' rs. collect exEnv (\<lambda>k. False) exStale ''/repo'' ?abc = (c', Inr rs) \<and>
          map withoutId rs = [exRecA1, exRecA2, exRecC1] \<and> map id' rs = [1 .. int (length rs)]"
    by simp
  ultimately show ?thesis
    by (auto dest: arg_cong [where f = length])
qed

text \<open>
  A unit whose \<^verbatim>\<open>tsconfig.json\<close> exists and is reported malformed by \<^verbatim>\<open>readConfigFile\<close>:
  the run returns no record at all.
\<close>

lemma exRun_b:
  "collect exEnv (\<lambda>k. False) exStale ''/repo'' (exInfo [exPkg ''b'']) =
     (\<lparr> errorIdCounter = 0, interrupted = False \<rparr>, Inr [])"
  by (simp add: collect_def exInfo_def exPkg_def exStale_def collectFromPath_eq exUnits)

theorem config_read_error_counterexample:
  "findTsConfig exEnv ''/repo/packages/b'' = Some ''/repo/packages/b/tsconfig.json'' \<and>
   readConfigFile exEnv ''/repo/packages/b/tsconfig.json'' =
     Inr \<lparr> config = Some (JObj []), error = Some exDiagRead \<rparr> \<and>
   collect exEnv (\<lambda>k. False) exStale ''/repo'' (exInfo [exPkg ''b'']) =
     (\<lparr> errorIdCounter = 0, interrupted = False \<rparr>, Inr [])"
  using exRun_b by (simp add: findTsConfig_def existsSync_def exEnv_def)

section \<open>Detection\<close>

lemma tryDetectors_none:
  "\<forall>d\<in>set ds. detect d E root = Inr False \<Longrightarrow> tryDetectors E root ds = Inr None"
  by (induction ds) simp_all

lemma tryDetectors_first:
  "\<forall>x\<in>set pre. detect x E root = Inr False \<Longrightarrow> detect d E root = Inr True \<Longrightarrow>
   tryDetectors E root (pre @ d # post) =
     (case getPackages d E root of
        Inl e \<Rightarrow> Inl e
      | Inr pkgs \<Rightarrow> Inr (Some \<lparr> isMonorepo = True, monorepoType = detectorName d,
                               rootPath = root, packages = pkgs \<rparr>))"
  by (induction pre) simp_all

lemma tryDetectors_some:
  "tryDetectors E root ds = Inr (Some info) \<Longrightarrow>
   isMonorepo info \<and> (\<exists>d\<in>set ds. monorepoType info = detectorName d)"
  by (induction ds) (auto split: sum.splits if_splits)

lemma DEFAULT_DETECTORS_names:
  "map detectorName DEFAULT_DETECTORS = [turbo, pnpm, yarn, npm, lerna, nx]"
  by (simp add: DEFAULT_DETECTORS_def TurboDetector_def PnpmDetector_def YarnDetector_def
        NpmDetector_def LernaDetector_def NxDetector_def)

lemma singlePackage_none:
  "\<not> isMonorepo (singlePackage E root) \<and> monorepoType (singlePackage E root) = none"
  by (simp add: singlePackage_def split: sum.splits json.splits)

text \<open>
  Claim C3, as the code has it. The npm detector's \<^verbatim>\<open>detect\<close> never throws, and it returns
  true exactly when the root manifest is present and parseable and its \<^verbatim>\<open>workspaces\<close>
  value is an array, or has a truthy \<^verbatim>\<open>packages\<close> value. An array is truthy even when
  empty, so \<^verbatim>\<open>detect\<close> is true when \<^verbatim>\<open>workspaces\<close> is an object with a \<^verbatim>\<open>packages\<close> array,
  empty or not; it is false when the manifest is absent or unparseable.
\<close>

theorem npm_detect_characterisation:
  "detect NpmDetector E root =
     Inr (\<exists>pj ws. files E (path_resolve E root ''package.json'') = Some (Json pj) \<and>
                  getProp pj ''workspaces'' = Some ws \<and>
                  (isArray ws \<or> truthy (getProp ws ''packages''))) \<and>
   (files E (path_resolve E root ''package.json'') = Some (Json (JObj kvs)) \<and>
    map_of kvs ''workspaces'' = Some (JObj ws') \<and> map_of ws' ''packages'' = Some (JArr ps) \<longrightarrow>
      detect NpmDetector E root = Inr True) \<and>
   (files E (path_resolve E root ''package.json'') = None \<or>
    files E (path_resolve E root ''package.json'') = Some NoJson \<longrightarrow>
      detect NpmDetector E root = Inr False)"
proof -
  let ?p = "path_resolve E root ''package.json''"
  have obj: "truthy (Some v)" if "getProp v k = Some w" for v k w
    using that by (cases v) simp_all
  have arr: "truthy (Some v)" if "isArray v" for v
    using that by (cases v) simp_all
  have main: "NpmDetector_detect E root =
     (\<exists>pj ws. files E ?p = Some (Json pj) \<and> getProp pj ''workspaces'' = Some ws \<and>
              (isArray ws \<or> truthy (getProp ws ''packages'')))"
  proof (cases "files E ?p")
    case None
    then show ?thesis
      by (simp add: NpmDetector_detect_def readJSON_def readFileSync_JSON_parse_def resolvePath_def)
  next
    case (Some ent)
    show ?thesis
    proof (cases ent)
      case NoJson
      with Some show ?thesis
        by (simp add: NpmDetector_detect_def readJSON_def readFileSync_JSON_parse_def
              resolvePath_def)
    next
      case (Json pj)
      have t: "truthy (Some ws)"
        if "isArray ws \<or> truthy (getProp ws ''packages'')" for ws
        using that arr [of ws] by (cases ws) auto
      from Some Json show ?thesis
        by (auto simp: NpmDetector_detect_def readJSON_def readFileSync_JSON_parse_def
              resolvePath_def Let_def obj t split: option.splits)
    qed
  qed
  have d: "detect NpmDetector E root = Inr (NpmDetector_detect E root)"
    by (simp add: NpmDetector_def)
  show ?thesis
    unfolding d main by auto
qed


text \<open>
  The manifest \<^verbatim>\<open>{"name": "foo", "workspaces": {"packages": []}}\<close>: the detector answers
  true, where the specification's sentence says false.
\<close>

lemma exManifest_path:
  "path_resolve (exWithManifest m) ''/repo'' ''package.json'' = ''/repo/package.json'' \<and>
   files (exWithManifest m) ''/repo/package.json'' = Some (Json m)"
  by (simp add: exWithManifest_def exEnv_def)

theorem npm_detect_empty_packages_counterexample:
  "files (exWithManifest exManifestEmptyWorkspaces) ''/repo/package.json'' =
     Some (Json (JObj [(''name'', JStr ''foo''), (''workspaces'', JObj [(''packages'', JArr [])])])) \<and>
   detect NpmDetector (exWithManifest exManifestEmptyWorkspaces) ''/repo'' = Inr True \<and>
   \<not> npm_detect_as_specified (exWithManifest exManifestEmptyWorkspaces) ''/repo''"
  by (simp add: NpmDetector_def NpmDetector_detect_def readJSON_def readFileSync_JSON_parse_def
        resolvePath_def npm_detect_as_specified_def exManifest_path exManifestEmptyWorkspaces_def)

theorem npm_detect_characterisation_witness:
  "detect NpmDetector (exWithManifest exManifestEmptyWorkspaces) ''/repo'' = Inr True \<and>
   detect NpmDetector (exWithManifest exManifestWorkspaces) ''/repo'' = Inr True \<and>
   detect NpmDetector (exWithManifest exManifestFoo) ''/repo'' = Inr False \<and>
   files exEnv (path_resolve exEnv ''/repo'' ''package.json'') = None \<and>
   detect NpmDetector exEnv ''/repo'' = Inr False"
proof -
  let ?E = "exWithManifest exManifestEmptyWorkspaces"
  have h: "files ?E (path_resolve ?E ''/repo'' ''package.json'') =
             Some (Json (JObj [(''name'', JStr ''foo''), (''workspaces'', JObj [(''packages'', JArr [])])])) \<and>
           map_of [(''name'', JStr ''foo''), (''workspaces'', JObj [(''packages'', JArr [])])]
             ''workspaces'' = Some (JObj [(''packages'', JArr [])]) \<and>
           map_of [(''packages'', JArr [])] ''packages'' = Some (JArr [])"
    by (simp add: exManifest_path exManifestEmptyWorkspaces_def)
  have a: "files exEnv (path_resolve exEnv ''/repo'' ''package.json'') = None"
    by (simp add: exEnv_def)
  have w: "\<exists>pj ws. files (exWithManifest exManifestWorkspaces)
                      (path_resolve (exWithManifest exManifestWorkspaces) ''/repo'' ''package.json'') =
                    Some (Json pj) \<and>
                  getProp pj ''workspaces'' = Some ws \<and>
                  (isArray ws \<or> truthy (getProp ws ''packages''))"
    by (simp add: exManifest_path exManifestWorkspaces_def)
  have f: "\<not> (\<exists>pj ws. files (exWithManifest exManifestFoo)
                      (path_resolve (exWithManifest exManifestFoo) ''/repo'' ''package.json'') =
                    Some (Json pj) \<and>
                  getProp pj ''workspaces'' = Some ws \<and>
                  (isArray ws \<or> truthy (getProp ws ''packages'')))"
    by (simp add: exManifest_path exManifestFoo_def)
  from npm_detect_characterisation
         [of ?E "''/repo''" "[(''name'', JStr ''foo''), (''workspaces'', JObj [(''packages'', JArr [])])]"
             "[(''packages'', JArr [])]" "[]"] h
  have 1: "detect NpmDetector ?E ''/repo'' = Inr True" by blast
  from npm_detect_characterisation [of "exWithManifest exManifestWorkspaces" "''/repo''"] w
  have 2: "detect NpmDetector (exWithManifest exManifestWorkspaces) ''/repo'' = Inr True" by simp
  from npm_detect_characterisation [of "exWithManifest exManifestFoo" "''/repo''"] f
  have 3: "detect NpmDetector (exWithManifest exManifestFoo) ''/repo'' = Inr False" by simp
  from npm_detect_characterisation [of exEnv "''/repo''"] a
  have 4: "detect NpmDetector exEnv ''/repo'' = Inr False" by blast
  from 1 2 3 4 a show ?thesis by simp
qed

text \<open>
  Claim C5. The built-in detectors are, in order, turbo, pnpm, yarn, npm, lerna, nx, and
  the caller's detectors are tried before them. If, in the caller's list followed by the
  built-in one, every detector before \<open>d\<close> answers false and \<open>d\<close> answers true, the result
  has the type of \<open>d\<close> and the packages \<open>d\<close> enumerates, whatever the detectors after \<open>d\<close>
  are or would do: they are not called. In particular, with no custom detector, a root
  the turbo detector detects is reported as \<open>turbo\<close>, whether or not it satisfies the npm
  condition too.
\<close>

theorem detectMonorepo_first_match:
  "map detectorName DEFAULT_DETECTORS = [turbo, pnpm, yarn, npm, lerna, nx] \<and>
   (customDetectors @ DEFAULT_DETECTORS = pre @ d # post \<and>
    (\<forall>x\<in>set pre. detect x E root = Inr False) \<and> detect d E root = Inr True \<and>
    getPackages d E root = Inr pkgs \<longrightarrow>
      detectMonorepo E root customDetectors =
        Inr \<lparr> isMonorepo = True, monorepoType = detectorName d, rootPath = root,
              packages = pkgs \<rparr>) \<and>
   (turbo_detect E root = Inr True \<and> turbo_getPackages E root = Inr pkgs' \<longrightarrow>
      detectMonorepo E root [] =
        Inr \<lparr> isMonorepo = True, monorepoType = turbo, rootPath = root, packages = pkgs' \<rparr>)"
proof (intro conjI impI)
  show "map detectorName DEFAULT_DETECTORS = [turbo, pnpm, yarn, npm, lerna, nx]"
    by (rule DEFAULT_DETECTORS_names)
next
  assume a: "customDetectors @ DEFAULT_DETECTORS = pre @ d # post \<and>
    (\<forall>x\<in>set pre. detect x E root = Inr False) \<and> detect d E root = Inr True \<and>
    getPackages d E root = Inr pkgs"
  then have "tryDetectors E root (customDetectors @ DEFAULT_DETECTORS) =
      Inr (Some \<lparr> isMonorepo = True, monorepoType = detectorName d, rootPath = root,
                  packages = pkgs \<rparr>)"
    using tryDetectors_first [of pre E root d post] by simp
  then show "detectMonorepo E root customDetectors =
        Inr \<lparr> isMonorepo = True, monorepoType = detectorName d, rootPath = root,
              packages = pkgs \<rparr>"
    by (simp add: detectMonorepo_def)
next
  assume a: "turbo_detect E root = Inr True \<and> turbo_getPackages E root = Inr pkgs'"
  then show "detectMonorepo E root [] =
        Inr \<lparr> isMonorepo = True, monorepoType = turbo, rootPath = root, packages = pkgs' \<rparr>"
    by (simp add: detectMonorepo_def DEFAULT_DETECTORS_def TurboDetector_def)
qed

theorem detectMonorepo_first_match_witness:
  "detect NpmDetector exEnvTurbo ''/repo'' = Inr True \<and>
   detectMonorepo exEnvTurbo ''/repo'' [] =
     Inr \<lparr> isMonorepo = True, monorepoType = turbo, rootPath = ''/repo'',
           packages = [exPkg ''a''] \<rparr> \<and>
   detectMonorepo exEnvTurbo ''/repo'' [exCustomDetector, exThrowingDetector] =
     Inr \<lparr> isMonorepo = True, monorepoType = lerna, rootPath = ''/repo'',
           packages = [exPkg ''c''] \<rparr> \<and>
   detectMonorepo (exWithManifest exManifestWorkspaces) ''/repo'' [] =
     Inr \<lparr> isMonorepo = True, monorepoType = npm, rootPath = ''/repo'', packages = [] \<rparr>"
proof -
  have n: "detect NpmDetector exEnvTurbo ''/repo'' = Inr True"
    by (simp add: NpmDetector_def NpmDetector_detect_def readJSON_def readFileSync_JSON_parse_def
          resolvePath_def exEnvTurbo_def exManifest_path exManifestWorkspaces_def)
  have t: "turbo_detect exEnvTurbo ''/repo'' = Inr True \<and>
           turbo_getPackages exEnvTurbo ''/repo'' = Inr [exPkg ''a'']"
    by (simp add: exEnvTurbo_def)
  have c: "[exCustomDetector, exThrowingDetector] @ DEFAULT_DETECTORS =
             [] @ exCustomDetector # (exThrowingDetector # DEFAULT_DETECTORS) \<and>
           (\<forall>x\<in>set []. detect x exEnvTurbo ''/repo'' = Inr False) \<and>
           detect exCustomDetector exEnvTurbo ''/repo'' = Inr True \<and>
           getPackages exCustomDetector exEnvTurbo ''/repo'' = Inr [exPkg ''c'']"
    by (simp add: exCustomDetector_def)
  let ?E = "exWithManifest exManifestWorkspaces"
  have m: "[] @ DEFAULT_DETECTORS =
             [TurboDetector, PnpmDetector, YarnDetector] @ NpmDetector # [LernaDetector, NxDetector] \<and>
           (\<forall>x\<in>set [TurboDetector, PnpmDetector, YarnDetector]. detect x ?E ''/repo'' = Inr False) \<and>
           detect NpmDetector ?E ''/repo'' = Inr True \<and>
           getPackages NpmDetector ?E ''/repo'' = Inr []"
    by (simp add: DEFAULT_DETECTORS_def TurboDetector_def PnpmDetector_def YarnDetector_def
          NpmDetector_def PnpmDetector_detect_def YarnDetector_detect_def NpmDetector_detect_def
          fileExists_def existsSync_def readJSON_def readFileSync_JSON_parse_def resolvePath_def
          exManifest_path exManifestWorkspaces_def)
       (simp add: exWithManifest_def exEnv_def)
  from detectMonorepo_first_match [of "[]" "[]" TurboDetector DEFAULT_DETECTORS exEnvTurbo "''/repo''"
         "[]" "[exPkg ''a'']"] t
  have 1: "detectMonorepo exEnvTurbo ''/repo'' [] =
     Inr \<lparr> isMonorepo = True, monorepoType = turbo, rootPath = ''/repo'',
           packages = [exPkg ''a''] \<rparr>" by blast
  from detectMonorepo_first_match [of "[exCustomDetector, exThrowingDetector]" "[]" exCustomDetector
         "exThrowingDetector # DEFAULT_DETECTORS" exEnvTurbo "''/repo''" "[exPkg ''c'']"] c
  have 2: "detectMonorepo exEnvTurbo ''/repo'' [exCustomDetector, exThrowingDetector] =
     Inr \<lparr> isMonorepo = True, monorepoType = detectorName exCustomDetector, rootPath = ''/repo'',
           packages = [exPkg ''c''] \<rparr>" by blast
  from detectMonorepo_first_match [of "[]" "[TurboDetector, PnpmDetector, YarnDetector]" NpmDetector
         "[LernaDetector, NxDetector]" ?E "''/repo''" "[]"] m
  have 3: "detectMonorepo ?E ''/repo'' [] =
     Inr \<lparr> isMonorepo = True, monorepoType = detectorName NpmDetector, rootPath = ''/repo'',
           packages = [] \<rparr>" by blast
  from n 1 2 3 show ?thesis
    by (simp add: exCustomDetector_def NpmDetector_def)
qed


subsection \<open>The single-package fallback\<close>

lemma exDefault_undetected:
  "\<forall>d\<in>set DEFAULT_DETECTORS. detect d (exWithManifest exManifestFoo) ''/repo'' = Inr False"
  "\<forall>d\<in>set DEFAULT_DETECTORS. detect d exEnv ''/repo'' = Inr False"
  by (simp_all add: DEFAULT_DETECTORS_def TurboDetector_def PnpmDetector_def YarnDetector_def
        NpmDetector_def LernaDetector_def NxDetector_def PnpmDetector_detect_def
        YarnDetector_detect_def NpmDetector_detect_def LernaDetector_detect_def
        NxDetector_detect_def fileExists_def existsSync_def readJSON_def
        readFileSync_JSON_parse_def resolvePath_def exWithManifest_def exManifestFoo_def
        exEnv_def)

text \<open>
  Claim C9. Let every detector answer false for the root. If the manifest at the root is
  readable and its name is a non-empty string such as \<open>foo\<close>, \<^verbatim>\<open>detectMonorepo\<close> returns
  \<^verbatim>\<open>isMonorepo = false\<close>, type \<open>none\<close> and the single package of that name at the root
  path, with the version the manifest gives, if any. If the manifest is absent or
  unreadable, it returns \<^verbatim>\<open>isMonorepo = false\<close>, type \<open>none\<close> and no package, and does not
  throw.
\<close>

theorem detectMonorepo_single_package:
  assumes "\<forall>d\<in>set (customDetectors @ DEFAULT_DETECTORS). detect d E root = Inr False"
  shows "(files E (path_resolve E root ''package.json'') = Some (Json pj) \<and>
          getProp pj ''name'' = Some (JStr nm) \<and> nm \<noteq> [] \<longrightarrow>
            detectMonorepo E root customDetectors =
              Inr \<lparr> isMonorepo = False, monorepoType = none, rootPath = root,
                    packages = [\<lparr> name = JStr nm, path = root,
                                  version = getProp pj ''version'' \<rparr>] \<rparr>) \<and>
         (files E (path_resolve E root ''package.json'') = None \<or>
          files E (path_resolve E root ''package.json'') = Some NoJson \<longrightarrow>
            detectMonorepo E root customDetectors =
              Inr \<lparr> isMonorepo = False, monorepoType = none, rootPath = root, packages = [] \<rparr>)"
proof -
  from assms have "tryDetectors E root (customDetectors @ DEFAULT_DETECTORS) = Inr None"
    by (rule tryDetectors_none)
  then have fb: "detectMonorepo E root customDetectors = Inr (singlePackage E root)"
    by (simp add: detectMonorepo_def)
  have named: "singlePackage E root =
      \<lparr> isMonorepo = False, monorepoType = none, rootPath = root,
        packages = [\<lparr> name = JStr nm, path = root, version = getProp pj ''version'' \<rparr>] \<rparr>"
    if "files E (path_resolve E root ''package.json'') = Some (Json pj)"
      and "getProp pj ''name'' = Some (JStr nm)" and "nm \<noteq> []"
  proof -
    from that(2) obtain kvs where "pj = JObj kvs" by (cases pj) simp_all
    with that show ?thesis
      by (simp add: singlePackage_def readFileSync_JSON_parse_def)
  qed
  have absent: "singlePackage E root =
      \<lparr> isMonorepo = False, monorepoType = none, rootPath = root, packages = [] \<rparr>"
    if "files E (path_resolve E root ''package.json'') = None \<or>
        files E (path_resolve E root ''package.json'') = Some NoJson"
    using that by (auto simp: singlePackage_def readFileSync_JSON_parse_def)
  from fb named absent show ?thesis by auto
qed

theorem detectMonorepo_single_package_witness:
  "detectMonorepo (exWithManifest exManifestFoo) ''/repo'' [] =
     Inr \<lparr> isMonorepo = False, monorepoType = none, rootPath = ''/repo'',
           packages = [\<lparr> name = JStr ''foo'', path = ''/repo'',
                         version = Some (JStr ''1.0.0'') \<rparr>] \<rparr> \<and>
   files exEnv (path_resolve exEnv ''/repo'' ''package.json'') = None \<and>
   detectMonorepo exEnv ''/repo'' [] =
     Inr \<lparr> isMonorepo = False, monorepoType = none, rootPath = ''/repo'', packages = [] \<rparr>"
proof -
  let ?E = "exWithManifest exManifestFoo"
  have u1: "\<forall>d\<in>set ([] @ DEFAULT_DETECTORS). detect d ?E ''/repo'' = Inr False"
    and u2: "\<forall>d\<in>set ([] @ DEFAULT_DETECTORS). detect d exEnv ''/repo'' = Inr False"
    using exDefault_undetected by simp_all
  have m: "files ?E (path_resolve ?E ''/repo'' ''package.json'') = Some (Json exManifestFoo) \<and>
           getProp exManifestFoo ''name'' = Some (JStr ''foo'') \<and> ''foo'' \<noteq> []"
    by (simp add: exManifest_path exManifestFoo_def)
  have v: "getProp exManifestFoo ''version'' = Some (JStr ''1.0.0'')"
    by (simp add: exManifestFoo_def)
  have a: "files exEnv (path_resolve exEnv ''/repo'' ''package.json'') = None"
    by (simp add: exEnv_def)
  from detectMonorepo_single_package [OF u1, of exManifestFoo "''foo''"] m v
  have 1: "detectMonorepo ?E ''/repo'' [] =
     Inr \<lparr> isMonorepo = False, monorepoType = none, rootPath = ''/repo'',
           packages = [\<lparr> name = JStr ''foo'', path = ''/repo'',
                         version = Some (JStr ''1.0.0'') \<rparr>] \<rparr>"
    by simp
  from detectMonorepo_single_package [OF u2] a
  have 2: "detectMonorepo exEnv ''/repo'' [] =
     Inr \<lparr> isMonorepo = False, monorepoType = none, rootPath = ''/repo'', packages = [] \<rparr>"
    by blast
  from 1 2 a show ?thesis by simp
qed

text \<open>
  Claim C10, as the code has it. When none of the caller's detectors is named \<open>none\<close>
  (in particular when there is none), the result of \<^verbatim>\<open>detectMonorepo\<close> has
  \<^verbatim>\<open>isMonorepo\<close> true exactly when its type is not \<open>none\<close>. When the first detector to
  answer true enumerates no package, the result has \<^verbatim>\<open>isMonorepo\<close> true, that detector's
  type and an empty package list, and \<^verbatim>\<open>collect\<close> on it processes the root as one unit
  labelled \<open>root\<close>.
\<close>

theorem detectMonorepo_isMonorepo:
  assumes "detectMonorepo E root customDetectors = Inr info"
  shows "((\<forall>d\<in>set customDetectors. detectorName d \<noteq> none) \<longrightarrow>
            isMonorepo info = (monorepoType info \<noteq> none)) \<and>
         (customDetectors @ DEFAULT_DETECTORS = pre @ d # post \<and>
          (\<forall>x\<in>set pre. detect x E root = Inr False) \<and> detect d E root = Inr True \<and>
          getPackages d E root = Inr [] \<longrightarrow>
            info = \<lparr> isMonorepo = True, monorepoType = detectorName d, rootPath = root,
                     packages = [] \<rparr> \<and>
            collect E sig c root info =
              (snd (collectFromPath E (c\<lparr>errorIdCounter := 0, interrupted := False\<rparr>) root
                      (JStr ''root'')),
               Inr (fst (collectFromPath E (c\<lparr>errorIdCounter := 0, interrupted := False\<rparr>) root
                      (JStr ''root'')))))"
proof (intro conjI impI)
  assume names: "\<forall>d\<in>set customDetectors. detectorName d \<noteq> none"
  have "\<forall>d\<in>set DEFAULT_DETECTORS. detectorName d \<noteq> none"
    by (simp add: DEFAULT_DETECTORS_def TurboDetector_def PnpmDetector_def YarnDetector_def
          NpmDetector_def LernaDetector_def NxDetector_def)
  with names have all: "\<forall>d\<in>set (customDetectors @ DEFAULT_DETECTORS). detectorName d \<noteq> none"
    by auto
  show "isMonorepo info = (monorepoType info \<noteq> none)"
  proof (cases "tryDetectors E root (customDetectors @ DEFAULT_DETECTORS)")
    case (Inl e)
    with assms show ?thesis by (simp add: detectMonorepo_def)
  next
    case (Inr r)
    show ?thesis
    proof (cases r)
      case None
      with Inr assms have "info = singlePackage E root" by (simp add: detectMonorepo_def)
      with singlePackage_none [of E root] show ?thesis by simp
    next
      case (Some i)
      with Inr assms have "info = i" by (simp add: detectMonorepo_def)
      with Inr Some have "tryDetectors E root (customDetectors @ DEFAULT_DETECTORS) = Inr (Some info)"
        by simp
      from tryDetectors_some [OF this] obtain d' where
        mono: "isMonorepo info" and
        mem: "d' \<in> set (customDetectors @ DEFAULT_DETECTORS)" and
        ty: "monorepoType info = detectorName d'"
        by blast
      from all mem have "detectorName d' \<noteq> none" by blast
      with mono ty show ?thesis by simp
    qed
  qed
next
  assume a: "customDetectors @ DEFAULT_DETECTORS = pre @ d # post \<and>
          (\<forall>x\<in>set pre. detect x E root = Inr False) \<and> detect d E root = Inr True \<and>
          getPackages d E root = Inr []"
  then have "tryDetectors E root (customDetectors @ DEFAULT_DETECTORS) =
      Inr (Some \<lparr> isMonorepo = True, monorepoType = detectorName d, rootPath = root,
                  packages = [] \<rparr>)"
    using tryDetectors_first [of pre E root d post] by simp
  with assms show info: "info = \<lparr> isMonorepo = True, monorepoType = detectorName d,
                                  rootPath = root, packages = [] \<rparr>"
    by (simp add: detectMonorepo_def)
  show "collect E sig c root info =
              (snd (collectFromPath E (c\<lparr>errorIdCounter := 0, interrupted := False\<rparr>) root
                      (JStr ''root'')),
               Inr (fst (collectFromPath E (c\<lparr>errorIdCounter := 0, interrupted := False\<rparr>) root
                      (JStr ''root''))))"
    by (simp add: info collect_def split_beta Let_def)
qed

text \<open>
  A custom detector may carry any name of \<^verbatim>\<open>MonorepoType\<close>, \<open>none\<close> included: the result
  then has \<^verbatim>\<open>isMonorepo\<close> true and type \<open>none\<close>.
\<close>

theorem detectMonorepo_none_detector_counterexample:
  "detectMonorepo exEnv ''/repo'' [exNoneDetector] =
     Inr \<lparr> isMonorepo = True, monorepoType = none, rootPath = ''/repo'', packages = [] \<rparr>"
  by (simp add: detectMonorepo_def exNoneDetector_def)

lemma exNested_detect:
  "detectMonorepo exEnvNested ''/repo/packages/c'' [] =
     Inr \<lparr> isMonorepo = True, monorepoType = npm, rootPath = ''/repo/packages/c'',
           packages = [] \<rparr>"
  by (simp add: detectMonorepo_def DEFAULT_DETECTORS_def TurboDetector_def PnpmDetector_def
        YarnDetector_def NpmDetector_def PnpmDetector_detect_def YarnDetector_detect_def
        NpmDetector_detect_def fileExists_def existsSync_def readJSON_def
        readFileSync_JSON_parse_def resolvePath_def exEnvNested_def exManifestWorkspaces_def
        exEnv_def)

lemma exNested_root_unit:
  "collectFromPath exEnvNested \<lparr> errorIdCounter = 0, interrupted = False \<rparr>
     ''/repo/packages/c'' (JStr ''root'') =
   ([exRecC1\<lparr>id' := 1, packageName := JStr ''root''\<rparr>],
    \<lparr> errorIdCounter = 1, interrupted = False \<rparr>)"
  by (simp add: collectFromPath_eq unitDiagnostics_def findTsConfig_def existsSync_def
        projectDiagnostics_def formatDiagnostic_def exEnvNested_def exEnv_def exDiag3_def
        exRecC1_def)

theorem detectMonorepo_isMonorepo_witness:
  "detectMonorepo exEnvNested ''/repo/packages/c'' [] =
     Inr \<lparr> isMonorepo = True, monorepoType = npm, rootPath = ''/repo/packages/c'',
           packages = [] \<rparr> \<and>
   collect exEnvNested (\<lambda>k. False) exStale ''/repo/packages/c''
     \<lparr> isMonorepo = True, monorepoType = npm, rootPath = ''/repo/packages/c'', packages = [] \<rparr> =
     (\<lparr> errorIdCounter = 1, interrupted = False \<rparr>,
      Inr [exRecC1\<lparr>id' := 1, packageName := JStr ''root''\<rparr>])"
proof -
  let ?E = exEnvNested
  let ?r = "''/repo/packages/c''"
  let ?info = "\<lparr> isMonorepo = True, monorepoType = npm, rootPath = ?r, packages = [] \<rparr>"
  have m: "[] @ DEFAULT_DETECTORS =
             [TurboDetector, PnpmDetector, YarnDetector] @ NpmDetector # [LernaDetector, NxDetector] \<and>
           (\<forall>x\<in>set [TurboDetector, PnpmDetector, YarnDetector]. detect x ?E ?r = Inr False) \<and>
           detect NpmDetector ?E ?r = Inr True \<and>
           getPackages NpmDetector ?E ?r = Inr []"
    by (simp add: DEFAULT_DETECTORS_def TurboDetector_def PnpmDetector_def YarnDetector_def
          NpmDetector_def PnpmDetector_detect_def YarnDetector_detect_def NpmDetector_detect_def
          fileExists_def existsSync_def readJSON_def readFileSync_JSON_parse_def resolvePath_def
          exEnvNested_def exManifestWorkspaces_def exEnv_def)
  have n: "\<forall>d\<in>set []. detectorName d \<noteq> none" by simp
  from detectMonorepo_isMonorepo [OF exNested_detect, of "[TurboDetector, PnpmDetector, YarnDetector]"
         NpmDetector "[LernaDetector, NxDetector]" "\<lambda>k. False" exStale] m n
  have "isMonorepo ?info = (monorepoType ?info \<noteq> none)"
    and "collect ?E (\<lambda>k. False) exStale ?r ?info =
           (snd (collectFromPath ?E (exStale\<lparr>errorIdCounter := 0, interrupted := False\<rparr>) ?r
                   (JStr ''root'')),
            Inr (fst (collectFromPath ?E (exStale\<lparr>errorIdCounter := 0, interrupted := False\<rparr>) ?r
                   (JStr ''root''))))"
    by blast+
  with exNested_detect exNested_root_unit show ?thesis
    by (simp add: exStale_def)
qed

section \<open>The TSV generator\<close>

lemma replaceAll_removes: "c \<notin> set r \<Longrightarrow> c \<notin> set (replaceAll c r s)"
  by (induction s) (auto simp: replaceAll_def)

lemma replaceAll_keeps_out: "x \<notin> set s \<Longrightarrow> x \<notin> set r \<Longrightarrow> x \<notin> set (replaceAll c r s)"
  by (induction s) (auto simp: replaceAll_def)

lemma separators_distinct:
  "TAB \<noteq> LF" "TAB \<noteq> CR" "LF \<noteq> CR" "TAB \<noteq> CHR '' ''" "LF \<noteq> CHR '' ''" "CR \<noteq> CHR '' ''"
  by (simp_all add: TAB_def LF_def CR_def)

lemma clean_escaped: "clean (escaped s)"
proof -
  let ?a = "replaceAll TAB '' '' s"
  let ?b = "replaceAll LF '' '' ?a"
  have a: "TAB \<notin> set ?a"
    by (rule replaceAll_removes) (simp add: separators_distinct)
  have b: "LF \<notin> set ?b"
    by (rule replaceAll_removes) (simp add: separators_distinct)
  have b': "TAB \<notin> set ?b"
    using a by (rule replaceAll_keeps_out) (simp add: separators_distinct)
  have "CR \<notin> set (replaceAll CR [] ?b)"
    by (rule replaceAll_removes) simp
  moreover have "TAB \<notin> set (replaceAll CR [] ?b)"
    using b' by (rule replaceAll_keeps_out) simp
  moreover have "LF \<notin> set (replaceAll CR [] ?b)"
    using b by (rule replaceAll_keeps_out) simp
  ultimately show ?thesis by (simp add: clean_def escaped_def)
qed

lemma escapeField_string: "escapeField (JStr s) = Inr (escaped s)"
  by (simp add: escapeField_def escaped_def)

lemma digits_small: "n < 10 \<Longrightarrow> digits n = [''0123456789'' ! n]"
  by (simp add: digits.simps [of n])

lemma digits_large:
  "\<not> n < 10 \<Longrightarrow> digits n = digits (n div 10) @ [''0123456789'' ! (n mod 10)]"
  by (simp add: digits.simps [of n])

lemma digit_char: "k < 10 \<Longrightarrow> ''0123456789'' ! k \<in> set ''0123456789''"
proof (rule nth_mem)
  have "length ''0123456789'' = 10" by simp
  then show "k < 10 \<Longrightarrow> k < length ''0123456789''" by (simp only:)
qed

lemma set_single: "x \<in> A \<Longrightarrow> set [x] \<subseteq> A"
  by simp

lemma set_snoc: "set ys \<subseteq> A \<Longrightarrow> x \<in> A \<Longrightarrow> set (ys @ [x]) \<subseteq> A"
  by simp

lemma digits_chars: "set (digits n) \<subseteq> set ''0123456789''"
proof (induction n rule: digits.induct)
  case (1 n)
  show ?case
  proof (cases "n < 10")
    case True
    from digit_char [OF True] show ?thesis
      unfolding digits_small [OF True] by (rule set_single)
  next
    case False
    have "n mod 10 < 10" by simp
    from 1 [OF False] digit_char [OF this] show ?thesis
      unfolding digits_large [OF False] by (rule set_snoc)
  qed
qed

lemma clean_digits: "clean (digits n)"
proof -
  have "TAB \<notin> set ''0123456789''" "LF \<notin> set ''0123456789''" "CR \<notin> set ''0123456789''"
    by (simp_all add: TAB_def LF_def CR_def)
  with digits_chars [of n] show ?thesis
    unfolding clean_def by (meson subsetD)
qed

lemma clean_Cons: "clean (x # xs) = (x \<noteq> TAB \<and> x \<noteq> LF \<and> x \<noteq> CR \<and> clean xs)"
  by (auto simp: clean_def)

lemma clean_toString: "clean (toString i)"
proof (cases "i < 0")
  case True
  have "CHR ''-'' \<noteq> TAB \<and> CHR ''-'' \<noteq> LF \<and> CHR ''-'' \<noteq> CR"
    by (simp add: TAB_def LF_def CR_def)
  with True clean_digits [of "nat (- i)"] show ?thesis
    by (simp add: toString_def clean_Cons)
next
  case False
  with clean_digits [of "nat i"] show ?thesis by (simp add: toString_def)
qed

lemma clean_rowFields: "f \<in> set (rowFields r) \<Longrightarrow> clean f"
proof -
  have e: "clean (case packageName r of JStr s \<Rightarrow> escaped s | _ \<Rightarrow> [])"
    by (cases "packageName r") (simp_all add: clean_escaped, simp_all add: clean_def)
  assume "f \<in> set (rowFields r)"
  then consider "f = toString (id' r)"
    | "f = (case packageName r of JStr s \<Rightarrow> escaped s | _ \<Rightarrow> [])"
    | "f = escaped (fileName r)" | "f = toString (errorCode r)" | "f = escaped (description r)"
    unfolding rowFields_def by (simp only: list.set) blast
  then show ?thesis
    by cases (simp_all only: e clean_escaped clean_toString)
qed

lemma clean_headers: "f \<in> set headers \<Longrightarrow> clean f"
proof -
  have "list_all clean headers"
    by (simp add: headers_def clean_def TAB_def LF_def CR_def)
  then show "f \<in> set headers \<Longrightarrow> clean f"
    by (simp only: list_all_iff)
qed

lemma split_clean: "d \<notin> set a \<Longrightarrow> split d a = [a]"
  by (induction a) auto

lemma split_append: "d \<notin> set a \<Longrightarrow> split d (a @ d # rest) = a # split d rest"
  by (induction a) auto

lemma split_join:
  "fs \<noteq> [] \<Longrightarrow> \<forall>f\<in>set fs. d \<notin> set f \<Longrightarrow> split d (join [d] fs) = fs"
proof (induction "[d]" fs rule: join.induct)
  case 1
  then show ?case by simp
next
  case (2 x)
  then show ?case by (simp add: split_clean)
next
  case (3 x y ys)
  then show ?case by (simp add: split_append)
qed

lemma join_free:
  "c \<noteq> d \<Longrightarrow> \<forall>f\<in>set fs. c \<notin> set f \<Longrightarrow> c \<notin> set (join [d] fs)"
  by (induction "[d]" fs rule: join.induct) auto

lemma row_string:
  "packageName r = JStr s \<Longrightarrow> row r = Inr (join [TAB] (rowFields r))"
  by (simp add: row_def rowFields_def escapeField_string)

lemma rows_loop_strings:
  "\<forall>r\<in>set errs. \<exists>s. packageName r = JStr s \<Longrightarrow>
   rows_loop errs rows = Inr (rows @ map (\<lambda>r. join [TAB] (rowFields r)) errs)"
proof (induction errs arbitrary: rows)
  case Nil
  then show ?case by simp
next
  case (Cons r errs)
  then obtain s where "packageName r = JStr s" by auto
  then have "row r = Inr (join [TAB] (rowFields r))" by (rule row_string)
  with Cons show ?case by simp
qed

text \<open>
  Claim C7. For every list of \<open>N\<close> records whose fields are strings (the package name is
  the one field that could be anything else), \<^verbatim>\<open>generate\<close> writes a text that, split at
  newlines, has \<open>N + 1\<close> lines, the header and one line per record in order; each line,
  split at tabs, has exactly 5 fields, those of the header or of its record; and no field
  holds a raw tab, newline or carriage return, whatever the strings of the records hold.
\<close>

theorem generate_roundtrip:
  assumes "\<forall>r\<in>set errs. \<exists>s. packageName r = JStr s"
  shows "\<exists>content. generate errs outputPath = Inr (outputPath, content) \<and>
           length (split LF content) = length errs + 1 \<and>
           map (split TAB) (split LF content) = headers # map rowFields errs \<and>
           (\<forall>l\<in>set (split LF content).
              length (split TAB l) = 5 \<and> (\<forall>f\<in>set (split TAB l). clean f))"
proof -
  define rows where "rows = join [TAB] headers # map (\<lambda>r. join [TAB] (rowFields r)) errs"
  define content where "content = join [LF] rows"
  have gen: "generate errs outputPath = Inr (outputPath, content)"
    using rows_loop_strings [OF assms, of "[join [TAB] headers]"]
    by (simp add: generate_def content_def rows_def)
  have hf: "\<forall>f\<in>set headers. LF \<notin> set f" and ht: "\<forall>f\<in>set headers. TAB \<notin> set f"
    using clean_headers by (auto simp: clean_def)
  have rf: "\<forall>f\<in>set (rowFields r). LF \<notin> set f" and rt: "\<forall>f\<in>set (rowFields r). TAB \<notin> set f" for r
    using clean_rowFields [of _ r] by (auto simp: clean_def)
  have lt: "LF \<noteq> TAB" using separators_distinct(1) by simp
  have nh: "LF \<notin> set (join [TAB] headers)"
    using lt hf by (rule join_free)
  have nr: "LF \<notin> set (join [TAB] (rowFields r))" for r
    using lt rf by (rule join_free)
  have nolf: "\<forall>l\<in>set rows. LF \<notin> set l"
    using nh nr by (auto simp: rows_def)
  have "rows \<noteq> []" by (simp add: rows_def)
  then have lines: "split LF content = rows"
    unfolding content_def using nolf by (rule split_join)
  have sh: "split TAB (join [TAB] headers) = headers"
    using ht by (intro split_join) (simp_all add: headers_def)
  have sr: "split TAB (join [TAB] (rowFields r)) = rowFields r" for r
    using rt [of r] by (intro split_join) (simp_all add: rowFields_def)
  have fields: "map (split TAB) rows = headers # map rowFields errs"
    by (simp add: rows_def sh sr)
  have each: "length (split TAB l) = 5 \<and> (\<forall>f\<in>set (split TAB l). clean f)" if "l \<in> set rows" for l
  proof -
    from that consider "l = join [TAB] headers" | r where "l = join [TAB] (rowFields r)"
      by (auto simp: rows_def)
    then show ?thesis
    proof cases
      case 1
      then show ?thesis using clean_headers by (simp add: sh) (simp add: headers_def)
    next
      case 2
      then show ?thesis using clean_rowFields [of _ r] by (simp add: sr) (simp add: rowFields_def)
    qed
  qed
  have "length rows = length errs + 1" by (simp add: rows_def)
  with gen lines fields each show ?thesis by auto
qed


lemma exRowFields:
  "rowFields (exRecA1\<lparr>id' := 1\<rparr>) =
     [''1'', ''a'', ''packages/a/src/index.ts'', ''2322'', ''Type mismatch'']"
  "rowFields exRecDirty = [''2'', ''b'', ''src/x.ts'', ''1005'', ''a b c'']"
  by (simp_all add: rowFields_def exRecA1_def exRecDirty_def toString_def digits.simps
        escaped_def replaceAll_def TAB_def LF_def CR_def)

theorem generate_roundtrip_witness:
  "\<exists>content. generate [exRecA1\<lparr>id' := 1\<rparr>, exRecDirty] ''errors.tsv'' =
               Inr (''errors.tsv'', content) \<and>
             length (split LF content) = 3 \<and>
             map (split TAB) (split LF content) =
               [[''id'', ''package_name'', ''file_name'', ''error_code'', ''description''],
                [''1'', ''a'', ''packages/a/src/index.ts'', ''2322'', ''Type mismatch''],
                [''2'', ''b'', ''src/x.ts'', ''1005'', ''a b c'']] \<and>
             list_all (\<lambda>l. length (split TAB l) = 5 \<and> list_all clean (split TAB l))
               (split LF content)"
proof -
  have p: "\<forall>r\<in>set [exRecA1\<lparr>id' := 1\<rparr>, exRecDirty]. \<exists>s. packageName r = JStr s"
    by (simp add: exRecA1_def exRecDirty_def)
  from generate_roundtrip [OF p, of "''errors.tsv''"] show ?thesis
    by (elim exE conjE, intro exI conjI)
       (assumption, simp_all add: exRowFields headers_def list_all_iff)
qed

end
